theory Spec2Isabelle
  imports Main
begin

section \<open>The multi-GPU stencil driver \<open>openmp_multi_cuda.c\<close>\<close>

text \<open>
  The program drives one CUDA context per device through \<open>nticks\<close> steps of a 2D
  pattern, runs the same pattern on the host, and compares the results. Everything it
  calls outside its own file (the CUDA driver and runtime, \<open>pattern2d_gpu\<close>,
  \<open>pattern2d_cpu\<close>, \<open>rand\<close>, \<open>malloc\<close>, the OpenMP runtime) is external. The
  embedding takes the behaviour of the external world as an environment: what every
  dynamic call returns, what the kernels compute, in which order the device threads of
  one tick finish. The program itself is a function from that environment to its exit
  status (the value \<open>main\<close> returns), its console output and its final memory.

  Integers: device indices, tick indices, grid sizes and buffer offsets are \<open>nat\<close>
  (the program counts them up from 0 and the values are far below \<open>2^31\<close>); status
  codes and the step counter are \<open>int\<close>. Cells are of an arbitrary type \<open>'v\<close>; the
  source has \<open>float\<close>.
\<close>

subsection \<open>Data\<close>

text \<open>The thread configuration structure \<open>config_t\<close>. Pointers are offsets: \<open>inout_cpu\<close>
  into the host array \<open>inout\<close>, \<open>in_dev\<close> and \<open>out_dev\<close> addresses of device buffers.\<close>

record config =
  idevice :: int
  status :: int
  step :: int
  nx :: nat
  ny :: nat
  inout_cpu :: nat
  in_dev :: nat
  out_dev :: nat
  ctx :: nat

text \<open>The global variables \<open>nticks\<close>, \<open>nx\<close>, \<open>ny\<close> and their initial values.\<close>

record globals =
  g_nticks :: nat
  g_nx :: nat
  g_ny :: nat

definition globals0 :: globals where
  "globals0 = \<lparr>g_nticks = 10, g_nx = 128, g_ny = 128\<rparr>"

text \<open>
  Every call of an external function that returns a status, identified by its place in
  the program and the loop indices current there (tick first, then device).
  \<open>Pattern2dCpu\<close> carries its tick and the offsets of the tiles it reads and writes.
\<close>

datatype site =
    CudaGetDeviceCount
  | CuDeviceGet nat
  | CuCtxCreate nat
  | CudaMallocIn nat
  | CudaMallocOut nat
  | CudaMemcpyH2D nat
  | CuCtxPopInit nat
  | CuCtxPushStep nat nat
  | Pattern2dGpu nat nat
  | CuCtxPopStep nat nat
  | Pattern2dCpu nat nat nat
  | CuCtxPushFinal nat
  | CudaMemcpyD2H nat
  | CudaFreeIn nat
  | CudaFreeOut nat
  | CuCtxDestroy nat

text \<open>A printed argument, and what the program does that can be observed: an external
  call, a line on stdout, a line on stderr. A line is its format (without the final
  newline) and the arguments the format prints.\<close>

datatype 'v arg = I int | F 'v

datatype 'v event =
    Call site
  | Stdout string "'v arg list"
  | Stderr string "'v arg list"

text \<open>The environment.\<close>

record 'v env =
  ndevices_found :: nat
    \<comment> \<open>the count \<open>cudaGetDeviceCount\<close> stores\<close>
  nthreads_found :: int
    \<comment> \<open>\<open>omp_get_num_threads()\<close>\<close>
  status_of :: "site \<Rightarrow> int"
    \<comment> \<open>the status each call returns; 0 is \<open>CUDA_SUCCESS\<close> and \<open>cudaSuccess\<close>\<close>
  rand_cell :: "nat \<Rightarrow> 'v"
    \<comment> \<open>\<open>rand() * invdrandmax\<close> at the i-th call\<close>
  heap_garbage :: "nat \<Rightarrow> 'v"
    \<comment> \<open>the indeterminate contents of memory \<open>malloc\<close> returns\<close>
  config_garbage :: "nat \<Rightarrow> config"
  dev_garbage :: "nat \<Rightarrow> 'v list"
    \<comment> \<open>the indeterminate contents of device memory\<close>
  gpu_kernel :: "nat \<Rightarrow> nat \<Rightarrow> 'v list \<Rightarrow> 'v list \<Rightarrow> 'v list"
    \<comment> \<open>\<open>pattern2d_gpu\<close> at a tick on a device: from the input buffer and the old
       output buffer to the new output buffer\<close>
  cpu_kernel :: "nat \<Rightarrow> 'v list \<Rightarrow> 'v list \<Rightarrow> 'v list"
    \<comment> \<open>\<open>pattern2d_cpu\<close> at a tick, likewise\<close>
  finish_time :: "nat \<Rightarrow> nat \<Rightarrow> nat"
    \<comment> \<open>when, within a tick, the thread of a device runs; ties go to the lower index\<close>
  absdiff :: "'v \<Rightarrow> 'v \<Rightarrow> 'v"
    \<comment> \<open>\<open>fabs(a - b)\<close> in \<open>float\<close>\<close>

text \<open>The memory and the console. \<open>control\<close> and \<open>input\<close> are the two local pointers of
  \<open>main\<close> of these names, as offsets into \<open>inout\<close>.\<close>

record 'v state =
  trace :: "'v event list"
  inout :: "'v list"
  devmem :: "nat \<Rightarrow> 'v list"
  configs :: "config list"
  control :: nat
  input :: nat

subsection \<open>Console and external calls\<close>

text \<open>\<open>printf\<close> prints as many arguments as the format has conversions and ignores the
  rest. No format of this program has a literal percent sign.\<close>

definition conversions :: "string \<Rightarrow> nat" where
  "conversions fmt = count_list fmt CHR ''%''"

definition emit :: "'v event \<Rightarrow> 'v state \<Rightarrow> 'v state" where
  "emit e st = st\<lparr>trace := trace st @ [e]\<rparr>"

definition printf :: "string \<Rightarrow> 'v arg list \<Rightarrow> 'v state \<Rightarrow> 'v state" where
  "printf fmt args st = emit (Stdout fmt (take (conversions fmt) args)) st"

definition fprintf_stderr :: "string \<Rightarrow> 'v arg list \<Rightarrow> 'v state \<Rightarrow> 'v state" where
  "fprintf_stderr fmt args st = emit (Stderr fmt (take (conversions fmt) args)) st"

definition extcall :: "'v env \<Rightarrow> site \<Rightarrow> 'v state \<Rightarrow> int \<times> 'v state" where
  "extcall env c st = (status_of env c, emit (Call c) st)"

definition set_config :: "nat \<Rightarrow> (config \<Rightarrow> config) \<Rightarrow> 'v state \<Rightarrow> 'v state" where
  "set_config d f st = st\<lparr>configs := (configs st)[d := f (configs st ! d)]\<rparr>"

subsection \<open>Host memory\<close>

definition tile :: "nat \<Rightarrow> nat \<Rightarrow> 'v list \<Rightarrow> 'v list" where
  "tile np off xs = map (\<lambda>k. xs ! (off + k)) [0..<np]"

definition store_tile :: "nat \<Rightarrow> nat \<Rightarrow> 'v list \<Rightarrow> 'v list \<Rightarrow> 'v list" where
  "store_tile np off ys xs =
     map (\<lambda>k. if off \<le> k \<and> k < off + np then ys ! (k - off) else xs ! k) [0..<length xs]"

text \<open>\<open>memcpy(xs + dst, xs + src, n cells)\<close> within one array, the regions disjoint.\<close>

definition memcpy :: "nat \<Rightarrow> nat \<Rightarrow> nat \<Rightarrow> 'v list \<Rightarrow> 'v list" where
  "memcpy dst src n xs = store_tile n dst (tile n src xs) xs"

text \<open>Lines 118 to 124: the array of \<open>ndevices + 2\<close> tiles, the first filled from
  \<open>rand\<close>, then copied to each of the others. \<open>malloc\<close> is taken to succeed (the source
  does not test it).\<close>

definition malloc_cells :: "'v env \<Rightarrow> nat \<Rightarrow> 'v list" where
  "malloc_cells env n = map (heap_garbage env) [0..<n]"

definition seed_loop :: "'v env \<Rightarrow> nat \<Rightarrow> 'v list \<Rightarrow> 'v list" where
  "seed_loop env np xs = fold (\<lambda>i ys. ys[i := rand_cell env i]) [0..<np] xs"

definition replicate_loop :: "nat \<Rightarrow> nat \<Rightarrow> 'v list \<Rightarrow> 'v list" where
  "replicate_loop np ndevices xs =
     fold (\<lambda>i ys. memcpy (np * (i + 1)) 0 np ys) [0..<ndevices + 1] xs"

definition init_workspace :: "'v env \<Rightarrow> nat \<Rightarrow> nat \<Rightarrow> 'v list" where
  "init_workspace env np ndevices =
     replicate_loop np ndevices (seed_loop env np (malloc_cells env ((ndevices + 2) * np)))"

subsection \<open>Loops that may return\<close>

text \<open>A \<open>for\<close> loop over indices whose body may return from the enclosing function:
  \<open>Some s\<close> is \<open>return s\<close>.\<close>

fun for_loop :: "(nat \<Rightarrow> 's \<Rightarrow> int option \<times> 's) \<Rightarrow> nat list \<Rightarrow> 's \<Rightarrow> int option \<times> 's" where
  "for_loop body [] st = (None, st)"
| "for_loop body (i # is) st =
     (case body i st of
        (Some s, st') \<Rightarrow> (Some s, st')
      | (None, st') \<Rightarrow> for_loop body is st')"

subsection \<open>\<open>thread_func\<close>\<close>

text \<open>Lines 48 to 89, on the configuration \<open>configs + d\<close>. The tick is not an argument in
  the source; here it tells the environment which call this is. The kernel may have
  written the output buffer also when it fails. \<open>cuCtxPopCurrent\<close> stores the context it
  pops, which is the one pushed, so \<open>ctx\<close> keeps its value.\<close>

definition thread_func :: "'v env \<Rightarrow> nat \<Rightarrow> nat \<Rightarrow> 'v state \<Rightarrow> int \<times> 'v state" where
  "thread_func env tick d st0 =
     (let config = configs st0 ! d;
          idev = idevice config;
          (cu_status, st1) = extcall env (CuCtxPushStep tick d) st0
      in if cu_status \<noteq> 0 then
           (cu_status,
            fprintf_stderr ''Cannot push current context for device %d, status = %d''
              [I idev, I cu_status] st1)
         else
           let (kstatus, st2) = extcall env (Pattern2dGpu tick d) st1;
               st3 = st2\<lparr>devmem := (devmem st2)(out_dev config :=
                        gpu_kernel env tick d (devmem st2 (in_dev config))
                          (devmem st2 (out_dev config)))\<rparr>
           in if kstatus \<noteq> 0 then
                (kstatus,
                 fprintf_stderr ''Cannot execute pattern 2d on device %d, status = %d''
                   [I idev, I kstatus] st3)
              else
                let st4 = set_config d (\<lambda>c. c\<lparr>step := step c + 1\<rparr>) st3;
                    (cu_status, st5) = extcall env (CuCtxPopStep tick d) st4
                in if cu_status \<noteq> 0 then
                     (cu_status,
                      fprintf_stderr ''Cannot pop current context for device %d, status = %d''
                        [I idev, I cu_status] st5)
                   else
                     let st6 = set_config d
                           (\<lambda>c. c\<lparr>in_dev := out_dev c, out_dev := in_dev c\<rparr>) st5;
                         st7 = printf ''Device %d completed step %d''
                           [I idev, I (step (configs st6 ! d))] st6
                     in (0, st7))"

text \<open>Lines 209 and 210, the body of the parallel loop:
  \<open>config->status = thread_func(config)\<close>.\<close>

definition worker :: "'v env \<Rightarrow> nat \<Rightarrow> nat \<Rightarrow> 'v state \<Rightarrow> 'v state" where
  "worker env tick d st =
     (let (r, st') = thread_func env tick d st
      in set_config d (\<lambda>c. c\<lparr>status := r\<rparr>) st')"

text \<open>Lines 206 to 211. Each iteration touches only its own configuration and device
  buffers, so the memory after the parallel loop is that of a run of its iterations one
  after the other in some order; the environment gives the order. The trace of such a run
  has the events of one iteration in one block. The threads of the program run at the same
  time, and the events of two devices within a tick can come in any interleaving: of the
  trace of a tick, the events of each single device in their order and the number of
  times an event occurs are those of the program, the order of the events of two devices
  is not.\<close>

definition schedule :: "'v env \<Rightarrow> nat \<Rightarrow> nat \<Rightarrow> nat list" where
  "schedule env tick ndevices = sort_key (finish_time env tick) [0..<ndevices]"

definition gpu_section :: "'v env \<Rightarrow> nat \<Rightarrow> nat \<Rightarrow> 'v state \<Rightarrow> 'v state" where
  "gpu_section env tick ndevices st = fold (worker env tick) (schedule env tick ndevices) st"

text \<open>Lines 216 to 224. The value \<open>pattern2d_cpu\<close> returns is not used. The section
  shares no data with the section of the devices; it is taken after it.\<close>

definition cpu_section :: "'v env \<Rightarrow> nat \<Rightarrow> nat \<Rightarrow> 'v state \<Rightarrow> 'v state" where
  "cpu_section env tick np st0 =
     (let (unused, st1) = extcall env (Pattern2dCpu tick (input st0) (control st0)) st0;
          st2 = st1\<lparr>inout := store_tile np (control st1)
                   (cpu_kernel env tick (tile np (input st1) (inout st1))
                      (tile np (control st1) (inout st1)))
                   (inout st1)\<rparr>
      in st2\<lparr>control := input st2, input := control st2\<rparr>)"

text \<open>Lines 227 to 236.\<close>

definition join_body :: "nat \<Rightarrow> 'v state \<Rightarrow> int option \<times> 'v state" where
  "join_body i st =
     (let s = status (configs st ! i)
      in if s \<noteq> 0 then
           (Some s,
            fprintf_stderr ''Cannot execute thread function for device %d, status = %d''
              [I (int i), I s] st)
         else (None, st))"

text \<open>Lines 197 to 237: one tick.\<close>

definition tick_body :: "'v env \<Rightarrow> nat \<Rightarrow> nat \<Rightarrow> nat \<Rightarrow> 'v state \<Rightarrow> int option \<times> 'v state" where
  "tick_body env np ndevices i st =
     for_loop join_body [0..<ndevices]
       (cpu_section env i np (gpu_section env i ndevices st))"

subsection \<open>\<open>main\<close>\<close>

text \<open>Lines 131 to 192, for one device. \<open>cuCtxCreate\<close> stores the new context,
  \<open>cudaMalloc\<close> the address of the new buffer (here \<open>2 * d\<close> and \<open>2 * d + 1\<close>),
  \<open>cuCtxPopCurrent\<close> the context it pops, which is the one created.\<close>

definition init_body :: "'v env \<Rightarrow> globals \<Rightarrow> nat \<Rightarrow> nat \<Rightarrow> 'v state \<Rightarrow> int option \<times> 'v state" where
  "init_body env g np d st0 =
     (let st1 = set_config d (\<lambda>c. c\<lparr>idevice := int d, step := 0, nx := g_nx g, ny := g_ny g,
                   inout_cpu := np * d\<rparr>) st0;
          (cu_status, st2) = extcall env (CuDeviceGet d) st1
      in if cu_status \<noteq> 0 then
           (Some cu_status,
            fprintf_stderr ''Cannot get CUDA device by index %d, status = %d''
              [I (int d), I cu_status] st2)
         else
     let (cu_status, st3) = extcall env (CuCtxCreate d) st2
      in if cu_status \<noteq> 0 then
           (Some cu_status,
            fprintf_stderr ''Cannot create a context for device %d, status = %d''
              [I (int d), I cu_status] st3)
         else
     let st4 = set_config d (\<lambda>c. c\<lparr>ctx := d\<rparr>) st3;
         (cuda_status, st5) = extcall env (CudaMallocIn d) st4
      in if cuda_status \<noteq> 0 then
           (Some cuda_status,
            fprintf_stderr ''Cannot allocate CUDA input buffer on device %d, status = %d''
              [I (int d), I cuda_status] st5)
         else
     let st6 = set_config d (\<lambda>c. c\<lparr>in_dev := 2 * d\<rparr>) st5;
         (cuda_status, st7) = extcall env (CudaMallocOut d) st6
      in if cuda_status \<noteq> 0 then
           (Some cuda_status,
            fprintf_stderr ''Cannot allocate CUDA output buffer on device %d, status = %d''
              [I (int d), I cuda_status] st7)
         else
     let st8 = set_config d (\<lambda>c. c\<lparr>out_dev := 2 * d + 1\<rparr>) st7;
         (cuda_status, st9) = extcall env (CudaMemcpyH2D d) st8
      in if cuda_status \<noteq> 0 then
           (Some cuda_status,
            fprintf_stderr ''Cannot copy input data to CUDA buffer on device %d, status = %d''
              [I (int d), I cuda_status] st9)
         else
     let st10 = st9\<lparr>devmem := (devmem st9)(in_dev (configs st9 ! d) :=
                   tile np (inout_cpu (configs st9 ! d)) (inout st9))\<rparr>;
         (cu_status, st11) = extcall env (CuCtxPopInit d) st10
      in if cu_status \<noteq> 0 then
           (Some cu_status,
            fprintf_stderr ''Cannot pop current context for device %d, status = %d''
              [I (int d), I cu_status] st11)
         else (None, printf ''Device %d initialized'' [I (int d)] st11))"

text \<open>Lines 247 to 294, for one device.\<close>

definition final_body :: "'v env \<Rightarrow> nat \<Rightarrow> nat \<Rightarrow> 'v state \<Rightarrow> int option \<times> 'v state" where
  "final_body env np d st0 =
     (let config = configs st0 ! d;
          (cu_status, st1) = extcall env (CuCtxPushFinal d) st0
      in if cu_status \<noteq> 0 then
           (Some cu_status,
            fprintf_stderr ''Cannot push current context for device %d, status = %d''
              [I (int d), I cu_status] st1)
         else
     let (cuda_status, st2) = extcall env (CudaMemcpyD2H d) st1
      in if cuda_status \<noteq> 0 then
           (Some cuda_status,
            fprintf_stderr ''Cannot copy output data from CUDA buffer on device %d, status = %d''
              [I (int d), I cuda_status] st2)
         else
     let st3 = st2\<lparr>inout := store_tile np (inout_cpu config) (devmem st2 (in_dev config))
                   (inout st2)\<rparr>;
         (cuda_status, st4) = extcall env (CudaFreeIn d) st3
      in if cuda_status \<noteq> 0 then
           (Some cuda_status,
            fprintf_stderr ''Cannot release input buffer on device %d, status = %d''
              [I (int d), I cuda_status] st4)
         else
     let (cuda_status, st5) = extcall env (CudaFreeOut d) st4
      in if cuda_status \<noteq> 0 then
           (Some cuda_status,
            fprintf_stderr ''Cannot release output buffer on device %d, status = %d''
              [I (int d), I cuda_status] st5)
         else
     let (cu_status, st6) = extcall env (CuCtxDestroy d) st5
      in if cu_status \<noteq> 0 then
           (Some cu_status,
            fprintf_stderr ''Cannot destroy context for device %d''
              [I (int d), I cu_status] st6)
         else (None, printf ''Device %d deinitialized'' [I (int d)] st6))"

text \<open>Lines 299 to 315: find the maximum abs difference between the tile at \<open>control\<close>
  and the tile of device \<open>idevice\<close>.\<close>

definition find_max_diff ::
  "('v::ord) env \<Rightarrow> nat \<Rightarrow> nat \<Rightarrow> 'v list \<Rightarrow> nat \<Rightarrow> nat \<Rightarrow> 'v \<times> nat \<times> nat" where
  "find_max_diff env w h xs c t =
     fold (\<lambda>j acc.
        fold (\<lambda>i (maxdiff, maxi, maxj).
           let diff = absdiff env (xs ! (c + (i + j * w))) (xs ! (t + (i + j * w)))
           in if diff > maxdiff then (diff, i, j) else (maxdiff, maxi, maxj))
          [0..<w] acc)
       [0..<h]
       (absdiff env (xs ! (c + 0)) (xs ! (t + 0)), 0, 0)"

text \<open>Lines 297 to 318, for one device.\<close>

definition validate_body :: "('v::ord) env \<Rightarrow> globals \<Rightarrow> nat \<Rightarrow> nat \<Rightarrow> 'v state \<Rightarrow> 'v state" where
  "validate_body env g np d st =
     (let (maxdiff, maxi, maxj) =
            find_max_diff env (g_nx g) (g_ny g) (inout st) (control st) (d * np)
      in printf ''Device %d result abs max diff = %f @ (%d,%d)''
           [I (int d), F maxdiff, I (int maxi), I (int maxj)] st)"

text \<open>The state in which \<open>main\<close> starts.\<close>

definition start :: "'v env \<Rightarrow> 'v state" where
  "start env = \<lparr>trace = [], inout = [], devmem = dev_garbage env, configs = [],
     control = 0, input = 0\<rparr>"

text \<open>Lines 91 to 324. The result is the exit status and the final state; the two calls
  of \<open>free\<close> at the end leave nothing to observe.\<close>

definition main :: "globals \<Rightarrow> ('v::ord) env \<Rightarrow> int \<times> 'v state" where
  "main g env =
     (let (cuda_status, st1) = extcall env CudaGetDeviceCount (start env)
      in if cuda_status \<noteq> 0 then
           (cuda_status,
            fprintf_stderr ''Cannot get the cuda device count, status = %d''
              [I cuda_status] st1)
         else
     let ndevices = ndevices_found env;
         st2 = printf ''%d CUDA device(s) found'' [I (int ndevices)] st1
      in if ndevices = 0 then (0, st2)
         else
     let st3 = printf ''%d OpenMP threads used'' [I (nthreads_found env)] st2;
         np = g_nx g * g_ny g;
         st4 = st3\<lparr>inout := init_workspace env np ndevices\<rparr>;
         st5 = st4\<lparr>configs := map (config_garbage env) [0..<ndevices]\<rparr>
      in (case for_loop (init_body env g np) [0..<ndevices] st5 of
           (Some s, st) \<Rightarrow> (s, st)
         | (None, st6) \<Rightarrow>
     (let st7 = st6\<lparr>control := ndevices * np, input := (ndevices + 1) * np\<rparr>
      in (case for_loop (tick_body env np ndevices) [0..<g_nticks g] st7 of
           (Some s, st) \<Rightarrow> (s, st)
         | (None, st8) \<Rightarrow>
     (let st9 = st8\<lparr>control := input st8, input := control st8\<rparr>
      in (case for_loop (final_body env np) [0..<ndevices] st9 of
           (Some s, st) \<Rightarrow> (s, st)
         | (None, st10) \<Rightarrow>
     (0, fold (validate_body env g np) [0..<ndevices] st10)))))))"

subsection \<open>The calls of a run in program order, and what a run prints\<close>

text \<open>The definitions of this subsection are not part of the program. They say, from the
  environment alone, what the program is then proved to return and to print.\<close>

fun first_nonzero :: "int list \<Rightarrow> int" where
  "first_nonzero [] = 0"
| "first_nonzero (s # ss) = (if s \<noteq> 0 then s else first_nonzero ss)"

definition first_status :: "'v env \<Rightarrow> site list \<Rightarrow> int" where
  "first_status env cs = first_nonzero (map (status_of env) cs)"

definition ret :: "int \<Rightarrow> int option" where
  "ret s = (if s \<noteq> 0 then Some s else None)"

definition init_sites :: "nat \<Rightarrow> site list" where
  "init_sites d = [CuDeviceGet d, CuCtxCreate d, CudaMallocIn d, CudaMallocOut d,
     CudaMemcpyH2D d, CuCtxPopInit d]"

definition step_sites :: "nat \<Rightarrow> nat \<Rightarrow> site list" where
  "step_sites i d = [CuCtxPushStep i d, Pattern2dGpu i d, CuCtxPopStep i d]"

definition final_sites :: "nat \<Rightarrow> site list" where
  "final_sites d = [CuCtxPushFinal d, CudaMemcpyD2H d, CudaFreeIn d, CudaFreeOut d,
     CuCtxDestroy d]"

text \<open>The calls whose status the program tests, in the order of the program text, the
  devices of one tick in the order of their indices. \<open>Pattern2dCpu\<close> is not among them.\<close>

definition tick_sites :: "nat \<Rightarrow> nat \<Rightarrow> site list" where
  "tick_sites ndevices i = concat (map (step_sites i) [0..<ndevices])"

definition program_order :: "globals \<Rightarrow> 'v env \<Rightarrow> site list" where
  "program_order g env =
     CudaGetDeviceCount #
     concat (map init_sites [0..<ndevices_found env]) @
     concat (map (tick_sites (ndevices_found env)) [0..<g_nticks g]) @
     concat (map final_sites [0..<ndevices_found env])"

text \<open>The line on stderr at each tested call, as the \<open>fprintf\<close> after it prints it.\<close>

fun err_line :: "'v env \<Rightarrow> site \<Rightarrow> 'v event" where
  "err_line env CudaGetDeviceCount =
     Stderr ''Cannot get the cuda device count, status = %d''
       [I (status_of env CudaGetDeviceCount)]"
| "err_line env (CuDeviceGet d) =
     Stderr ''Cannot get CUDA device by index %d, status = %d''
       [I (int d), I (status_of env (CuDeviceGet d))]"
| "err_line env (CuCtxCreate d) =
     Stderr ''Cannot create a context for device %d, status = %d''
       [I (int d), I (status_of env (CuCtxCreate d))]"
| "err_line env (CudaMallocIn d) =
     Stderr ''Cannot allocate CUDA input buffer on device %d, status = %d''
       [I (int d), I (status_of env (CudaMallocIn d))]"
| "err_line env (CudaMallocOut d) =
     Stderr ''Cannot allocate CUDA output buffer on device %d, status = %d''
       [I (int d), I (status_of env (CudaMallocOut d))]"
| "err_line env (CudaMemcpyH2D d) =
     Stderr ''Cannot copy input data to CUDA buffer on device %d, status = %d''
       [I (int d), I (status_of env (CudaMemcpyH2D d))]"
| "err_line env (CuCtxPopInit d) =
     Stderr ''Cannot pop current context for device %d, status = %d''
       [I (int d), I (status_of env (CuCtxPopInit d))]"
| "err_line env (CuCtxPushStep i d) =
     Stderr ''Cannot push current context for device %d, status = %d''
       [I (int d), I (status_of env (CuCtxPushStep i d))]"
| "err_line env (Pattern2dGpu i d) =
     Stderr ''Cannot execute pattern 2d on device %d, status = %d''
       [I (int d), I (status_of env (Pattern2dGpu i d))]"
| "err_line env (CuCtxPopStep i d) =
     Stderr ''Cannot pop current context for device %d, status = %d''
       [I (int d), I (status_of env (CuCtxPopStep i d))]"
| "err_line env (Pattern2dCpu i a b) = Stderr [] []"
| "err_line env (CuCtxPushFinal d) =
     Stderr ''Cannot push current context for device %d, status = %d''
       [I (int d), I (status_of env (CuCtxPushFinal d))]"
| "err_line env (CudaMemcpyD2H d) =
     Stderr ''Cannot copy output data from CUDA buffer on device %d, status = %d''
       [I (int d), I (status_of env (CudaMemcpyD2H d))]"
| "err_line env (CudaFreeIn d) =
     Stderr ''Cannot release input buffer on device %d, status = %d''
       [I (int d), I (status_of env (CudaFreeIn d))]"
| "err_line env (CudaFreeOut d) =
     Stderr ''Cannot release output buffer on device %d, status = %d''
       [I (int d), I (status_of env (CudaFreeOut d))]"
| "err_line env (CuCtxDestroy d) =
     Stderr ''Cannot destroy context for device %d'' [I (int d)]"

text \<open>A block of tested calls: each call is made if those before it returned 0, a
  failing call is followed by its line on stderr, and \<open>fin\<close> follows the last call if
  none fails.\<close>

fun block_events :: "'v env \<Rightarrow> site list \<Rightarrow> 'v event list \<Rightarrow> 'v event list" where
  "block_events env [] fin = fin"
| "block_events env (c # cs) fin =
     Call c # (if status_of env c \<noteq> 0 then [err_line env c] else block_events env cs fin)"

definition init_events :: "'v env \<Rightarrow> nat \<Rightarrow> 'v event list" where
  "init_events env d =
     block_events env (init_sites d) [Stdout ''Device %d initialized'' [I (int d)]]"

definition step_events :: "'v env \<Rightarrow> nat \<Rightarrow> nat \<Rightarrow> 'v event list" where
  "step_events env i d =
     block_events env (step_sites i d)
       [Stdout ''Device %d completed step %d'' [I (int d), I (int i + 1)]]"

definition final_events :: "'v env \<Rightarrow> nat \<Rightarrow> 'v event list" where
  "final_events env d =
     block_events env (final_sites d) [Stdout ''Device %d deinitialized'' [I (int d)]]"

text \<open>A loop that returns at the first index whose body fails.\<close>

fun loop_events :: "(nat \<Rightarrow> int) \<Rightarrow> (nat \<Rightarrow> 'e list) \<Rightarrow> nat list \<Rightarrow> 'e list" where
  "loop_events r ev [] = []"
| "loop_events r ev (i # is) = ev i @ (if r i \<noteq> 0 then [] else loop_events r ev is)"

text \<open>The two tiles of the host: which one \<open>control\<close> and \<open>input\<close> point to when tick
  \<open>i\<close> begins.\<close>

definition control_at :: "nat \<Rightarrow> nat \<Rightarrow> nat \<Rightarrow> nat" where
  "control_at ndevices np i = (if even i then ndevices * np else (ndevices + 1) * np)"

definition input_at :: "nat \<Rightarrow> nat \<Rightarrow> nat \<Rightarrow> nat" where
  "input_at ndevices np i = (if even i then (ndevices + 1) * np else ndevices * np)"

definition step_status :: "'v env \<Rightarrow> nat \<Rightarrow> nat \<Rightarrow> int" where
  "step_status env i d = first_status env (step_sites i d)"

definition tick_status :: "'v env \<Rightarrow> nat \<Rightarrow> nat \<Rightarrow> int" where
  "tick_status env ndevices i = first_nonzero (map (step_status env i) [0..<ndevices])"

definition join_events :: "'v env \<Rightarrow> nat \<Rightarrow> nat \<Rightarrow> 'v event list" where
  "join_events env i d =
     (if step_status env i d \<noteq> 0 then
        [Stderr ''Cannot execute thread function for device %d, status = %d''
           [I (int d), I (step_status env i d)]]
      else [])"

definition tick_events :: "'v env \<Rightarrow> nat \<Rightarrow> nat \<Rightarrow> nat \<Rightarrow> 'v event list" where
  "tick_events env ndevices np i =
     concat (map (step_events env i) (schedule env i ndevices)) @
     [Call (Pattern2dCpu i (input_at ndevices np i) (control_at ndevices np i))] @
     loop_events (step_status env i) (join_events env i) [0..<ndevices]"

text \<open>What holds when tick \<open>i\<close> begins, and when the initialisation of device \<open>i\<close>
  begins.\<close>

definition tick_inv :: "nat \<Rightarrow> nat \<Rightarrow> nat \<Rightarrow> 'v state \<Rightarrow> bool" where
  "tick_inv n np i st \<longleftrightarrow>
     length (configs st) = n \<and>
     (\<forall>d<n. idevice (configs st ! d) = int d \<and> step (configs st ! d) = int i) \<and>
     control st = control_at n np i \<and> input st = input_at n np i"


definition init_inv :: "nat \<Rightarrow> nat \<Rightarrow> 'v state \<Rightarrow> bool" where
  "init_inv n i st \<longleftrightarrow>
     length (configs st) = n \<and>
     (\<forall>d<i. idevice (configs st ! d) = int d \<and> step (configs st ! d) = 0)"

definition init_status :: "'v env \<Rightarrow> nat \<Rightarrow> int" where
  "init_status env d = first_status env (init_sites d)"

definition final_status :: "'v env \<Rightarrow> nat \<Rightarrow> int" where
  "final_status env d = first_status env (final_sites d)"

text \<open>The line of the validation for device \<open>d\<close>, from the host array \<open>xs\<close> and the
  offset \<open>c\<close> of the control tile.\<close>

definition result_line :: "('v::ord) env \<Rightarrow> globals \<Rightarrow> 'v list \<Rightarrow> nat \<Rightarrow> nat \<Rightarrow> 'v event" where
  "result_line env g xs c d =
     (let (maxdiff, maxi, maxj) =
            find_max_diff env (g_nx g) (g_ny g) xs c (d * (g_nx g * g_ny g))
      in Stdout ''Device %d result abs max diff = %f @ (%d,%d)''
           [I (int d), F maxdiff, I (int maxi), I (int maxj)])"

text \<open>Everything a run does, in order; \<open>xs\<close> and \<open>c\<close> are the host array and the
  control offset at the validation.\<close>

definition expected_trace :: "globals \<Rightarrow> ('v::ord) env \<Rightarrow> 'v list \<Rightarrow> nat \<Rightarrow> 'v event list" where
  "expected_trace g env xs c =
     (let n = ndevices_found env; np = g_nx g * g_ny g
      in Call CudaGetDeviceCount #
         (if status_of env CudaGetDeviceCount \<noteq> 0 then [err_line env CudaGetDeviceCount]
          else Stdout ''%d CUDA device(s) found'' [I (int n)] #
            (if n = 0 then []
             else Stdout ''%d OpenMP threads used'' [I (nthreads_found env)] #
               loop_events (init_status env) (init_events env) [0..<n] @
               (if first_nonzero (map (init_status env) [0..<n]) \<noteq> 0 then []
                else loop_events (tick_status env n) (tick_events env n np) [0..<g_nticks g] @
                  (if first_nonzero (map (tick_status env n) [0..<g_nticks g]) \<noteq> 0 then []
                   else loop_events (final_status env) (final_events env) [0..<n] @
                     (if first_nonzero (map (final_status env) [0..<n]) \<noteq> 0 then []
                      else map (result_line env g xs c) [0..<n]))))))"

text \<open>The state when the loop over the devices at line 131 begins, in a run that found
  devices.\<close>

definition prepared :: "globals \<Rightarrow> 'v env \<Rightarrow> 'v state" where
  "prepared g env =
     \<lparr>trace = [Call CudaGetDeviceCount,
        Stdout ''%d CUDA device(s) found'' [I (int (ndevices_found env))],
        Stdout ''%d OpenMP threads used'' [I (nthreads_found env)]],
      inout = init_workspace env (g_nx g * g_ny g) (ndevices_found env),
      devmem = dev_garbage env,
      configs = map (config_garbage env) [0..<ndevices_found env],
      control = 0, input = 0\<rparr>"

subsection \<open>Runs that arrive at the join of a tick\<close>

text \<open>The tested calls a run makes before tick \<open>k\<close>, and the runs in which all of them
  return 0, so that tick \<open>k\<close> is run.\<close>

definition tested_before_tick :: "globals \<Rightarrow> 'v env \<Rightarrow> nat \<Rightarrow> site list" where
  "tested_before_tick g env k =
     CudaGetDeviceCount #
     concat (map init_sites [0..<ndevices_found env]) @
     concat (map (tick_sites (ndevices_found env)) [0..<k])"

definition reaches_join :: "globals \<Rightarrow> 'v env \<Rightarrow> nat \<Rightarrow> bool" where
  "reaches_join g env k \<longleftrightarrow>
     k < g_nticks g \<and> (\<forall>c\<in>set (tested_before_tick g env k). status_of env c = 0)"

text \<open>The states of \<open>main\<close> at line 197 before the first tick, at line 199 when tick
  \<open>k\<close> begins, and at line 227 when both sections of tick \<open>k\<close> are done.\<close>

definition initialised :: "globals \<Rightarrow> 'v env \<Rightarrow> 'v state" where
  "initialised g env =
     (let ndevices = ndevices_found env;
          np = g_nx g * g_ny g;
          st6 = snd (for_loop (init_body env g np) [0..<ndevices] (prepared g env))
      in st6\<lparr>control := ndevices * np, input := (ndevices + 1) * np\<rparr>)"

definition at_tick :: "globals \<Rightarrow> 'v env \<Rightarrow> nat \<Rightarrow> 'v state" where
  "at_tick g env k =
     snd (for_loop (tick_body env (g_nx g * g_ny g) (ndevices_found env)) [0..<k]
            (initialised g env))"

definition at_join :: "globals \<Rightarrow> 'v env \<Rightarrow> nat \<Rightarrow> 'v state" where
  "at_join g env k =
     cpu_section env k (g_nx g * g_ny g)
       (gpu_section env k (ndevices_found env) (at_tick g env k))"

subsection \<open>Concrete environments\<close>

text \<open>Two devices, every call succeeds, the kernels copy their input, all threads of a
  tick finish at the same time. The others differ from it in one or two places.\<close>

definition quiet :: "int env" where
  "quiet =
     \<lparr>ndevices_found = 2, nthreads_found = 4, status_of = (\<lambda>c. 0),
      rand_cell = (\<lambda>i. int i), heap_garbage = (\<lambda>i. 0),
      config_garbage = (\<lambda>d. \<lparr>idevice = - 1, status = - 1, step = - 1, nx = 0, ny = 0,
        inout_cpu = 0, in_dev = 0, out_dev = 0, ctx = 0\<rparr>),
      dev_garbage = (\<lambda>a. []),
      gpu_kernel = (\<lambda>i d inp old. inp), cpu_kernel = (\<lambda>i inp old. inp),
      finish_time = (\<lambda>i d. 0), absdiff = (\<lambda>a b. \<bar>a - b\<bar>)\<rparr>"

definition env_no_devices :: "int env" where
  "env_no_devices = quiet\<lparr>ndevices_found := 0\<rparr>"

definition env_cpu_fails :: "int env" where
  "env_cpu_fails =
     quiet\<lparr>status_of := (\<lambda>c. case c of Pattern2dCpu i a b \<Rightarrow> 5 | _ \<Rightarrow> 0)\<rparr>"

definition env_kernel_fails :: "int env" where
  "env_kernel_fails = quiet\<lparr>status_of := (\<lambda>c. if c = Pattern2dGpu 0 1 then 7 else 0)\<rparr>"

definition env_pop_fails :: "int env" where
  "env_pop_fails = quiet\<lparr>status_of := (\<lambda>c. if c = CuCtxPopStep 0 0 then 3 else 0)\<rparr>"

text \<open>Every call of \<open>pattern2d_cpu\<close> returns 5, and the kernel of device 0 fails in the
  second tick.\<close>

definition env_cpu_then_kernel :: "int env" where
  "env_cpu_then_kernel =
     quiet\<lparr>status_of := (\<lambda>c. case c of
                              Pattern2dCpu i a b \<Rightarrow> 5
                            | Pattern2dGpu i d \<Rightarrow> if i = 1 \<and> d = 0 then 7 else 0
                            | _ \<Rightarrow> 0)\<rparr>"

text \<open>Both devices fail in the first tick, device 1 before device 0.\<close>

definition env_both_fail :: "int env" where
  "env_both_fail =
     quiet\<lparr>status_of := (\<lambda>c. if c = Pattern2dGpu 0 0 then 7
                              else if c = CuCtxPushStep 0 1 then 9 else 0),
           finish_time := (\<lambda>i d. if d = 1 then 0 else 1)\<rparr>"

subsection \<open>Kinds of events\<close>

text \<open>The events of the cleanup of lines 247 to 294 that act on a device (copy back,
  release, destroy) or report its end, the lines of the validation, and the tick an event
  of the step loop belongs to.\<close>

fun cleanup_event :: "'v event \<Rightarrow> bool" where
  "cleanup_event (Call c) =
     (case c of
        CuCtxPushFinal d \<Rightarrow> True
      | CudaMemcpyD2H d \<Rightarrow> True
      | CudaFreeIn d \<Rightarrow> True
      | CudaFreeOut d \<Rightarrow> True
      | CuCtxDestroy d \<Rightarrow> True
      | _ \<Rightarrow> False)"
| "cleanup_event (Stdout fmt args) = (fmt = ''Device %d deinitialized'')"
| "cleanup_event (Stderr fmt args) = False"

fun validation_event :: "'v event \<Rightarrow> bool" where
  "validation_event (Stdout fmt args) = (fmt = ''Device %d result abs max diff = %f @ (%d,%d)'')"
| "validation_event (Call c) = False"
| "validation_event (Stderr fmt args) = False"

fun tick_of :: "'v event \<Rightarrow> nat option" where
  "tick_of (Call c) =
     (case c of
        CuCtxPushStep i d \<Rightarrow> Some i
      | Pattern2dGpu i d \<Rightarrow> Some i
      | CuCtxPopStep i d \<Rightarrow> Some i
      | Pattern2dCpu i a b \<Rightarrow> Some i
      | _ \<Rightarrow> None)"
| "tick_of (Stdout fmt args) = None"
| "tick_of (Stderr fmt args) = None"

text \<open>The tiles \<open>pattern2d_cpu\<close> has written, in the order of the calls: the third
  argument of \<open>Pattern2dCpu\<close> is the offset of the output tile.\<close>

definition cpu_write :: "'v event \<Rightarrow> nat list" where
  "cpu_write e =
     (case e of
        Call c \<Rightarrow> (case c of Pattern2dCpu i a b \<Rightarrow> [b] | _ \<Rightarrow> [])
      | _ \<Rightarrow> [])"

definition cpu_writes :: "'v event list \<Rightarrow> nat list" where
  "cpu_writes es = concat (map cpu_write es)"

subsection \<open>Failures and the lines on stderr\<close>

text \<open>The lines of stderr; among them the line of the join (line 232). The calls whose
  status the program tests are all but \<open>pattern2d_cpu\<close>; a failed call of a trace is a
  tested call in it that returned a non-zero status.\<close>

fun is_stderr :: "'v event \<Rightarrow> bool" where
  "is_stderr (Stderr fmt args) = True"
| "is_stderr (Stdout fmt args) = False"
| "is_stderr (Call c) = False"

fun join_line :: "'v event \<Rightarrow> bool" where
  "join_line (Stderr fmt args) =
     (fmt = ''Cannot execute thread function for device %d, status = %d'')"
| "join_line (Stdout fmt args) = False"
| "join_line (Call c) = False"

definition tested :: "site \<Rightarrow> bool" where
  "tested c = (case c of Pattern2dCpu i a b \<Rightarrow> False | _ \<Rightarrow> True)"

definition failed_call :: "'v env \<Rightarrow> 'v event \<Rightarrow> site list" where
  "failed_call env e =
     (case e of
        Call c \<Rightarrow> if tested c \<and> status_of env c \<noteq> 0 then [c] else []
      | _ \<Rightarrow> [])"

definition failed_calls :: "'v env \<Rightarrow> 'v event list \<Rightarrow> site list" where
  "failed_calls env es = concat (map (failed_call env) es)"

text \<open>The device a call is made for; the device count is for none.\<close>

fun site_device :: "site \<Rightarrow> nat list" where
  "site_device CudaGetDeviceCount = []"
| "site_device (CuDeviceGet d) = [d]"
| "site_device (CuCtxCreate d) = [d]"
| "site_device (CudaMallocIn d) = [d]"
| "site_device (CudaMallocOut d) = [d]"
| "site_device (CudaMemcpyH2D d) = [d]"
| "site_device (CuCtxPopInit d) = [d]"
| "site_device (CuCtxPushStep i d) = [d]"
| "site_device (Pattern2dGpu i d) = [d]"
| "site_device (CuCtxPopStep i d) = [d]"
| "site_device (Pattern2dCpu i a b) = []"
| "site_device (CuCtxPushFinal d) = [d]"
| "site_device (CudaMemcpyD2H d) = [d]"
| "site_device (CudaFreeIn d) = [d]"
| "site_device (CudaFreeOut d) = [d]"
| "site_device (CuCtxDestroy d) = [d]"

text \<open>The devices whose step failed, in the order of the failed calls of
  \<open>thread_func\<close> in a trace.\<close>

definition step_site :: "site \<Rightarrow> bool" where
  "step_site c =
     (case c of
        CuCtxPushStep i d \<Rightarrow> True
      | Pattern2dGpu i d \<Rightarrow> True
      | CuCtxPopStep i d \<Rightarrow> True
      | _ \<Rightarrow> False)"

definition failed_step_devices :: "'v env \<Rightarrow> 'v event list \<Rightarrow> nat list" where
  "failed_step_devices env es =
     concat (map site_device (filter step_site (failed_calls env es)))"

text \<open>A line on stderr other than the line of the join.\<close>

abbreviation (input) own_line :: "'v event \<Rightarrow> bool" where
  "own_line e \<equiv> is_stderr e \<and> \<not> join_line e"

subsection \<open>The scan of the validation\<close>

text \<open>The cells in the order in which the loops of lines 302 and 304 visit them, and the
  difference line 306 computes at a cell.\<close>

definition cells :: "nat \<Rightarrow> nat \<Rightarrow> (nat \<times> nat) list" where
  "cells w h = concat (map (\<lambda>j. map (\<lambda>i. (i, j)) [0..<w]) [0..<h])"

definition cell_diff :: "'v env \<Rightarrow> nat \<Rightarrow> 'v list \<Rightarrow> nat \<Rightarrow> nat \<Rightarrow> nat \<Rightarrow> nat \<Rightarrow> 'v" where
  "cell_diff env w xs c t i j = absdiff env (xs ! (c + (i + j * w))) (xs ! (t + (i + j * w)))"

text \<open>A small grid for examples: 2 by 2 cells, one tick.\<close>

definition globals_small :: globals where
  "globals_small = \<lparr>g_nticks = 1, g_nx = 2, g_ny = 2\<rparr>"

text \<open>One step of the scan, lines 306 to 313, on the pair of the largest difference so
  far and its cell.\<close>

definition max_step :: "('p \<Rightarrow> 'v::ord) \<Rightarrow> 'p \<Rightarrow> 'v \<times> 'p \<Rightarrow> 'v \<times> 'p" where
  "max_step f p acc = (if f p > fst acc then (f p, p) else acc)"

subsection \<open>Values of type \<open>float\<close>\<close>

text \<open>A value of type \<open>float\<close> is a number or NaN. The numbers, the two infinities among
  them, are linearly ordered. A comparison with NaN by \<open><\<close>, \<open>>\<close>, \<open><=\<close> or \<open>>=\<close> is
  false, so the test \<open>diff > maxdiff\<close> of line 307 is false when either side is NaN.\<close>

datatype 'a ieee = NaN | Num 'a

fun ieee_less :: "('a::ord) ieee \<Rightarrow> 'a ieee \<Rightarrow> bool" where
  "ieee_less (Num x) (Num y) = (x < y)"
| "ieee_less NaN b = False"
| "ieee_less (Num x) NaN = False"

fun ieee_less_eq :: "('a::ord) ieee \<Rightarrow> 'a ieee \<Rightarrow> bool" where
  "ieee_less_eq (Num x) (Num y) = (x \<le> y)"
| "ieee_less_eq NaN b = False"
| "ieee_less_eq (Num x) NaN = False"

instantiation ieee :: (ord) ord
begin

definition less_ieee :: "'a ieee \<Rightarrow> 'a ieee \<Rightarrow> bool" where
  "less_ieee a b = ieee_less a b"

definition less_eq_ieee :: "'a ieee \<Rightarrow> 'a ieee \<Rightarrow> bool" where
  "less_eq_ieee a b = ieee_less_eq a b"

instance ..

end

text \<open>\<open>fabs(a - b)\<close>: NaN when an operand is NaN.\<close>

fun fabs_diff :: "int ieee \<Rightarrow> int ieee \<Rightarrow> int ieee" where
  "fabs_diff (Num x) (Num y) = Num \<bar>x - y\<bar>"
| "fabs_diff NaN b = NaN"
| "fabs_diff (Num x) NaN = NaN"

text \<open>The environment \<open>quiet\<close> with cells of this type.\<close>

definition quiet_ieee :: "int ieee env" where
  "quiet_ieee =
     \<lparr>ndevices_found = 2, nthreads_found = 4, status_of = (\<lambda>c. 0),
      rand_cell = (\<lambda>i. Num (int i)), heap_garbage = (\<lambda>i. Num 0),
      config_garbage = (\<lambda>d. \<lparr>idevice = - 1, status = - 1, step = - 1, nx = 0, ny = 0,
        inout_cpu = 0, in_dev = 0, out_dev = 0, ctx = 0\<rparr>),
      dev_garbage = (\<lambda>a. []),
      gpu_kernel = (\<lambda>i d inp old. inp), cpu_kernel = (\<lambda>i inp old. inp),
      finish_time = (\<lambda>i d. 0), absdiff = fabs_diff\<rparr>"

text \<open>The state at the validation of a run on the small grid, with these cells in the host
  array and the control tile at offset 4.\<close>

definition validation_state :: "int ieee list \<Rightarrow> int ieee state" where
  "validation_state xs = (start quiet_ieee)\<lparr>inout := xs, control := 4\<rparr>"

section \<open>Basic facts about the blocks of the program\<close>

lemmas io_defs = extcall_def fprintf_stderr_def printf_def emit_def set_config_def
  conversions_def Let_def

lemma first_nonzero_append:
  "first_nonzero (xs @ ys) = (if first_nonzero xs \<noteq> 0 then first_nonzero xs else first_nonzero ys)"
  by (induction xs) auto

lemma first_nonzero_concat:
  "first_nonzero (concat xss) = first_nonzero (map first_nonzero xss)"
  by (induction xss) (auto simp: first_nonzero_append)

lemma first_status_concat:
  "first_status env (concat (map f xs)) = first_nonzero (map (\<lambda>x. first_status env (f x)) xs)"
  by (simp add: first_status_def map_concat first_nonzero_concat comp_def)

lemma first_status_append:
  "first_status env (xs @ ys) = (if first_status env xs \<noteq> 0 then first_status env xs else first_status env ys)"
  by (simp add: first_status_def first_nonzero_append)

lemma first_status_Cons:
  "first_status env (c # cs) = (if status_of env c \<noteq> 0 then status_of env c else first_status env cs)"
  by (simp add: first_status_def)

lemma first_status_Nil: "first_status env [] = 0"
  by (simp add: first_status_def)

lemma thread_func_fst: "fst (thread_func env i d st) = step_status env i d"
  by (simp add: thread_func_def io_defs step_status_def step_sites_def first_status_def)

lemma thread_func_trace:
  "d < length (configs st) \<Longrightarrow> idevice (configs st ! d) = int d \<Longrightarrow>
   step (configs st ! d) = int i \<Longrightarrow>
   trace (snd (thread_func env i d st)) = trace st @ step_events env i d"
  by (simp add: thread_func_def io_defs step_events_def step_sites_def)

lemma thread_func_frame:
  "control (snd (thread_func env i d st)) = control st"
  "input (snd (thread_func env i d st)) = input st"
  "inout (snd (thread_func env i d st)) = inout st"
  "length (configs (snd (thread_func env i d st))) = length (configs st)"
  by (simp_all add: thread_func_def io_defs)

lemma thread_func_configs_other:
  "d' \<noteq> d \<Longrightarrow> configs (snd (thread_func env i d st)) ! d' = configs st ! d'"
  by (simp add: thread_func_def io_defs)

lemma thread_func_idevice:
  "d < length (configs st) \<Longrightarrow>
   idevice (configs (snd (thread_func env i d st)) ! d) = idevice (configs st ! d)"
  by (simp add: thread_func_def io_defs)

lemma thread_func_step:
  "d < length (configs st) \<Longrightarrow> step (configs (snd (thread_func env i d st)) ! d) =
     (if status_of env (CuCtxPushStep i d) = 0 \<and> status_of env (Pattern2dGpu i d) = 0
      then step (configs st ! d) + 1 else step (configs st ! d))"
  by (simp add: thread_func_def io_defs)

lemma init_body_fst: "fst (init_body env g np d st) = ret (first_status env (init_sites d))"
  by (simp add: init_body_def io_defs init_sites_def first_status_def ret_def)

lemma init_body_trace:
  "trace (snd (init_body env g np d st)) = trace st @ init_events env d"
  by (simp add: init_body_def io_defs init_events_def init_sites_def)

lemma final_body_fst: "fst (final_body env np d st) = ret (first_status env (final_sites d))"
  by (simp add: final_body_def io_defs final_sites_def first_status_def ret_def)

lemma final_body_trace:
  "trace (snd (final_body env np d st)) = trace st @ final_events env d"
  by (simp add: final_body_def io_defs final_events_def final_sites_def)

lemma ret_simps: "ret 0 = None" "s \<noteq> 0 \<Longrightarrow> ret s = Some s"
  by (simp_all add: ret_def)

lemma for_loop_upt:
  fixes body :: "nat \<Rightarrow> 'v state \<Rightarrow> int option \<times> 'v state"
  assumes body: "\<And>i st. a \<le> i \<Longrightarrow> i < b \<Longrightarrow> Inv i st \<Longrightarrow>
        fst (body i st) = ret (r i) \<and>
        trace (snd (body i st)) = trace st @ ev i \<and>
        (r i = 0 \<longrightarrow> Inv (Suc i) (snd (body i st)))"
    and "Inv a st" and "a \<le> b"
  shows "fst (for_loop body [a..<b] st) = ret (first_nonzero (map r [a..<b])) \<and>
         trace (snd (for_loop body [a..<b] st)) = trace st @ loop_events r ev [a..<b] \<and>
         (first_nonzero (map r [a..<b]) = 0 \<longrightarrow> Inv b (snd (for_loop body [a..<b] st)))"
  using assms
proof (induction "b - a" arbitrary: a st)
  case 0
  then show ?case by (simp add: ret_def)
next
  case (Suc n)
  then have lt: "a < b" by simp
  have upt: "[a..<b] = a # [Suc a..<b]" using lt by (simp add: upt_conv_Cons)
  obtain x st' where b: "body a st = (x, st')" by (cases "body a st")
  have fa: "x = ret (r a)" "trace st' = trace st @ ev a" "r a = 0 \<longrightarrow> Inv (Suc a) st'"
    using Suc.prems(1)[of a st] lt Suc.prems(2) b by auto
  show ?case
  proof (cases "r a = 0")
    case True
    have n: "n = b - Suc a" using Suc.hyps(2) by simp
    have ih: "fst (for_loop body [Suc a..<b] st') = ret (first_nonzero (map r [Suc a..<b])) \<and>
         trace (snd (for_loop body [Suc a..<b] st')) = trace st' @ loop_events r ev [Suc a..<b] \<and>
         (first_nonzero (map r [Suc a..<b]) = 0 \<longrightarrow> Inv b (snd (for_loop body [Suc a..<b] st')))"
    proof (rule Suc.hyps(1)[OF n])
      show "Inv (Suc a) st'" using fa True by simp
      show "Suc a \<le> b" using lt by simp
      show "\<And>i st. Suc a \<le> i \<Longrightarrow> i < b \<Longrightarrow> Inv i st \<Longrightarrow>
        fst (body i st) = ret (r i) \<and>
        trace (snd (body i st)) = trace st @ ev i \<and>
        (r i = 0 \<longrightarrow> Inv (Suc i) (snd (body i st)))"
        using Suc.prems(1) by simp
    qed
    show ?thesis using ih fa True b by (simp add: upt ret_def)
  next
    case False
    then show ?thesis using fa b by (simp add: upt ret_def)
  qed
qed

lemma schedule_set: "set (schedule env i n) = {0..<n}"
  by (simp add: schedule_def)

lemma schedule_distinct: "distinct (schedule env i n)"
  by (simp add: schedule_def)

lemma worker_trace:
  "d < length (configs st) \<Longrightarrow> idevice (configs st ! d) = int d \<Longrightarrow>
   step (configs st ! d) = int i \<Longrightarrow>
   trace (worker env i d st) = trace st @ step_events env i d"
  using thread_func_trace[of d st i env]
  by (simp add: worker_def set_config_def case_prod_beta)

lemma worker_frame:
  "control (worker env i d st) = control st"
  "input (worker env i d st) = input st"
  "inout (worker env i d st) = inout st"
  "length (configs (worker env i d st)) = length (configs st)"
  using thread_func_frame[of env i d st]
  by (simp_all add: worker_def set_config_def case_prod_beta)

lemma worker_other:
  "d' \<noteq> d \<Longrightarrow> configs (worker env i d st) ! d' = configs st ! d'"
  using thread_func_configs_other[of d' d env i st]
  by (simp add: worker_def set_config_def case_prod_beta)

lemma worker_own:
  assumes "d < length (configs st)"
  shows "idevice (configs (worker env i d st) ! d) = idevice (configs st ! d)"
    and "status (configs (worker env i d st) ! d) = step_status env i d"
    and "step (configs (worker env i d st) ! d) =
         (if status_of env (CuCtxPushStep i d) = 0 \<and> status_of env (Pattern2dGpu i d) = 0
          then step (configs st ! d) + 1 else step (configs st ! d))"
  using assms thread_func_idevice[of d st env i] thread_func_fst[of env i d st]
    thread_func_step[of d st env i] thread_func_frame(4)[of env i d st]
  by (simp_all add: worker_def set_config_def case_prod_beta)

lemma step_status_zero:
  "step_status env i d = 0 \<longleftrightarrow>
   status_of env (CuCtxPushStep i d) = 0 \<and> status_of env (Pattern2dGpu i d) = 0 \<and>
   status_of env (CuCtxPopStep i d) = 0"
  by (simp add: step_status_def step_sites_def first_status_def)

lemma fold_worker:
  assumes "distinct ds"
    and "\<forall>d\<in>set ds. d < length (configs st) \<and> idevice (configs st ! d) = int d \<and>
           step (configs st ! d) = int i"
  shows "trace (fold (worker env i) ds st) = trace st @ concat (map (step_events env i) ds) \<and>
         length (configs (fold (worker env i) ds st)) = length (configs st) \<and>
         control (fold (worker env i) ds st) = control st \<and>
         input (fold (worker env i) ds st) = input st \<and>
         (\<forall>d<length (configs st).
            idevice (configs (fold (worker env i) ds st) ! d) = idevice (configs st ! d) \<and>
            (d \<in> set ds \<longrightarrow>
               status (configs (fold (worker env i) ds st) ! d) = step_status env i d \<and>
               step (configs (fold (worker env i) ds st) ! d) =
                 (if status_of env (CuCtxPushStep i d) = 0 \<and> status_of env (Pattern2dGpu i d) = 0
                  then step (configs st ! d) + 1 else step (configs st ! d))) \<and>
            (d \<notin> set ds \<longrightarrow> configs (fold (worker env i) ds st) ! d = configs st ! d))"
  using assms
proof (induction ds arbitrary: st)
  case Nil
  then show ?case by simp
next
  case (Cons a ds)
  let ?st1 = "worker env i a st"
  have a: "a < length (configs st)" "idevice (configs st ! a) = int a"
    "step (configs st ! a) = int i" "a \<notin> set ds" "distinct ds"
    using Cons.prems by auto
  have pre: "\<forall>d\<in>set ds. d < length (configs ?st1) \<and> idevice (configs ?st1 ! d) = int d \<and>
           step (configs ?st1 ! d) = int i"
  proof
    fix d assume d: "d \<in> set ds"
    then have "d \<noteq> a" using a by auto
    then show "d < length (configs ?st1) \<and> idevice (configs ?st1 ! d) = int d \<and>
           step (configs ?st1 ! d) = int i"
      using Cons.prems d by (simp add: worker_frame worker_other)
  qed
  note ih = Cons.IH[OF a(5) pre]
  note own = worker_own[OF a(1), of env i]
  have per: "idevice (configs (fold (worker env i) ds ?st1) ! d) = idevice (configs st ! d) \<and>
            (d \<in> set (a # ds) \<longrightarrow>
               status (configs (fold (worker env i) ds ?st1) ! d) = step_status env i d \<and>
               step (configs (fold (worker env i) ds ?st1) ! d) =
                 (if status_of env (CuCtxPushStep i d) = 0 \<and> status_of env (Pattern2dGpu i d) = 0
                  then step (configs st ! d) + 1 else step (configs st ! d))) \<and>
            (d \<notin> set (a # ds) \<longrightarrow> configs (fold (worker env i) ds ?st1) ! d = configs st ! d)"
    if d: "d < length (configs st)" for d
  proof (cases "d = a")
    case True
    then show ?thesis using ih own a d by (simp add: worker_frame step_status_zero)
  next
    case False
    then show ?thesis using ih d by (simp add: worker_frame worker_other)
  qed
  have "trace (fold (worker env i) (a # ds) st) =
      trace st @ concat (map (step_events env i) (a # ds))"
    using ih worker_trace[OF a(1,2,3), of env] by simp
  moreover have "length (configs (fold (worker env i) (a # ds) st)) = length (configs st)"
    "control (fold (worker env i) (a # ds) st) = control st"
    "input (fold (worker env i) (a # ds) st) = input st"
    using ih by (simp_all add: worker_frame)
  ultimately show ?case using per by simp
qed

lemma gpu_section_props:
  assumes "tick_inv n np i st"
  shows "trace (gpu_section env i n st) = trace st @ concat (map (step_events env i) (schedule env i n))"
    and "length (configs (gpu_section env i n st)) = n"
    and "control (gpu_section env i n st) = control st"
    and "input (gpu_section env i n st) = input st"
    and "\<forall>d<n. idevice (configs (gpu_section env i n st) ! d) = int d \<and>
            status (configs (gpu_section env i n st) ! d) = step_status env i d \<and>
            step (configs (gpu_section env i n st) ! d) =
              (if status_of env (CuCtxPushStep i d) = 0 \<and> status_of env (Pattern2dGpu i d) = 0
               then int i + 1 else int i)"
proof -
  have pre: "\<forall>d\<in>set (schedule env i n). d < length (configs st) \<and>
      idevice (configs st ! d) = int d \<and> step (configs st ! d) = int i"
    using assms by (simp add: tick_inv_def schedule_set)
  note f = fold_worker[OF schedule_distinct pre, of env, folded gpu_section_def]
  show "trace (gpu_section env i n st) = trace st @ concat (map (step_events env i) (schedule env i n))"
    using f by simp
  show "length (configs (gpu_section env i n st)) = n" using f assms by (simp add: tick_inv_def)
  show "control (gpu_section env i n st) = control st" using f by simp
  show "input (gpu_section env i n st) = input st" using f by simp
  show "\<forall>d<n. idevice (configs (gpu_section env i n st) ! d) = int d \<and>
            status (configs (gpu_section env i n st) ! d) = step_status env i d \<and>
            step (configs (gpu_section env i n st) ! d) =
              (if status_of env (CuCtxPushStep i d) = 0 \<and> status_of env (Pattern2dGpu i d) = 0
               then int i + 1 else int i)"
    using f assms by (simp add: tick_inv_def schedule_set)
qed

lemma cpu_section_props:
  "trace (cpu_section env i np st) = trace st @ [Call (Pattern2dCpu i (input st) (control st))]"
  "configs (cpu_section env i np st) = configs st"
  "control (cpu_section env i np st) = input st"
  "input (cpu_section env i np st) = control st"
  by (simp_all add: cpu_section_def io_defs)

lemma join_loop:
  assumes "\<forall>d<n. status (configs st ! d) = r d"
  shows "fst (for_loop join_body [0..<n] st) = ret (first_nonzero (map r [0..<n]))"
    and "trace (snd (for_loop join_body [0..<n] st)) = trace st @
           loop_events r (\<lambda>d. if r d \<noteq> 0 then
             [Stderr ''Cannot execute thread function for device %d, status = %d''
               [I (int d), I (r d)]] else []) [0..<n]"
    and "first_nonzero (map r [0..<n]) = 0 \<longrightarrow> snd (for_loop join_body [0..<n] st) = st"
proof -
  let ?ev = "\<lambda>d. if r d \<noteq> 0 then
             [Stderr ''Cannot execute thread function for device %d, status = %d''
               [I (int d), I (r d)]] else []"
  have "fst (for_loop join_body [0..<n] st) = ret (first_nonzero (map r [0..<n])) \<and>
         trace (snd (for_loop join_body [0..<n] st)) = trace st @ loop_events r ?ev [0..<n] \<and>
         (first_nonzero (map r [0..<n]) = 0 \<longrightarrow> (\<lambda>i s. s = st) n (snd (for_loop join_body [0..<n] st)))"
  proof (rule for_loop_upt)
    show "st = st" by simp
    show "0 \<le> n" by simp
    fix i s assume "0 \<le> i" "i < n" "s = st"
    then show "fst (join_body i s) = ret (r i) \<and>
        trace (snd (join_body i s)) = trace s @ ?ev i \<and>
        (r i = 0 \<longrightarrow> snd (join_body i s) = st)"
      using assms by (simp add: join_body_def io_defs ret_def)
  qed
  then show "fst (for_loop join_body [0..<n] st) = ret (first_nonzero (map r [0..<n]))"
    and "trace (snd (for_loop join_body [0..<n] st)) = trace st @ loop_events r ?ev [0..<n]"
    and "first_nonzero (map r [0..<n]) = 0 \<longrightarrow> snd (for_loop join_body [0..<n] st) = st"
    by simp_all
qed

lemma first_nonzero_zero: "first_nonzero ss = 0 \<longleftrightarrow> (\<forall>s\<in>set ss. s = 0)"
  by (induction ss) auto

lemma control_input_Suc:
  "control_at n np (Suc i) = input_at n np i" "input_at n np (Suc i) = control_at n np i"
  by (simp_all add: control_at_def input_at_def)

lemma tick_body_props:
  assumes "tick_inv n np i st"
  shows "fst (tick_body env np n i st) = ret (tick_status env n i) \<and>
         trace (snd (tick_body env np n i st)) = trace st @ tick_events env n np i \<and>
         (tick_status env n i = 0 \<longrightarrow> tick_inv n np (Suc i) (snd (tick_body env np n i st)))"
proof -
  let ?g = "gpu_section env i n st"
  let ?c = "cpu_section env i np ?g"
  note g = gpu_section_props[OF assms, of env]
  have st: "\<forall>d<n. status (configs ?c ! d) = step_status env i d"
    using g(5) by (simp add: cpu_section_props)
  note j = join_loop[OF st]
  have tr: "trace ?c = trace st @ concat (map (step_events env i) (schedule env i n)) @
      [Call (Pattern2dCpu i (input_at n np i) (control_at n np i))]"
    using g assms by (simp add: cpu_section_props tick_inv_def)
  have inv: "tick_status env n i = 0 \<longrightarrow> tick_inv n np (Suc i) ?c"
    using g assms
    by (auto simp: tick_inv_def cpu_section_props tick_status_def first_nonzero_zero
        control_input_Suc step_status_zero)
  show ?thesis
    using j tr inv
    by (simp add: tick_body_def tick_status_def tick_events_def join_events_def[abs_def])
qed

lemma init_body_configs:
  assumes "d < length (configs st)"
  shows "length (configs (snd (init_body env g np d st))) = length (configs st)"
    and "idevice (configs (snd (init_body env g np d st)) ! d) = int d"
    and "step (configs (snd (init_body env g np d st)) ! d) = 0"
    and "d' \<noteq> d \<Longrightarrow> configs (snd (init_body env g np d st)) ! d' = configs st ! d'"
  using assms by (simp_all add: init_body_def io_defs)

lemma init_loop_props:
  fixes st :: "'v state"
  assumes "length (configs st) = n"
  shows "fst (for_loop (init_body env g np) [0..<n] st) = ret (first_nonzero (map (init_status env) [0..<n])) \<and>
         trace (snd (for_loop (init_body env g np) [0..<n] st)) =
           trace st @ loop_events (init_status env) (init_events env) [0..<n] \<and>
         (first_nonzero (map (init_status env) [0..<n]) = 0 \<longrightarrow>
            init_inv n n (snd (for_loop (init_body env g np) [0..<n] st)))"
proof -
  have body: "fst (init_body env g np i s) = ret (init_status env i) \<and>
        trace (snd (init_body env g np i s)) = trace s @ init_events env i \<and>
        (init_status env i = 0 \<longrightarrow> init_inv n (Suc i) (snd (init_body env g np i s)))"
    if i: "0 \<le> i" "i < n" and inv: "init_inv n i s" for i and s :: "'v state"
  proof -
    have len: "i < length (configs s)" using i inv by (simp add: init_inv_def)
    note c = init_body_configs[OF len, where env = env and g = g and np = np]
    have "init_inv n (Suc i) (snd (init_body env g np i s))"
      unfolding init_inv_def
    proof (intro conjI allI impI)
      show "length (configs (snd (init_body env g np i s))) = n"
        using c(1) inv by (simp add: init_inv_def)
      fix d assume d: "d < Suc i"
      show "idevice (configs (snd (init_body env g np i s)) ! d) = int d"
        using c(2) c(4)[of d] d inv by (cases "d = i") (simp_all add: init_inv_def)
      show "step (configs (snd (init_body env g np i s)) ! d) = 0"
        using c(3) c(4)[of d] d inv by (cases "d = i") (simp_all add: init_inv_def)
    qed
    then show ?thesis
      by (simp add: init_body_fst init_body_trace init_status_def)
  qed
  have inv0: "init_inv n 0 st" using assms by (simp add: init_inv_def)
  show ?thesis
    using for_loop_upt[where Inv = "init_inv n" and body = "init_body env g np"
        and r = "init_status env" and ev = "init_events env" and a = 0 and b = n and st = st,
        OF body inv0 le0] .
qed

lemma tick_loop_props:
  fixes st :: "'v state"
  assumes "tick_inv n np 0 st"
  shows "fst (for_loop (tick_body env np n) [0..<t] st) = ret (first_nonzero (map (tick_status env n) [0..<t])) \<and>
         trace (snd (for_loop (tick_body env np n) [0..<t] st)) =
           trace st @ loop_events (tick_status env n) (tick_events env n np) [0..<t] \<and>
         (first_nonzero (map (tick_status env n) [0..<t]) = 0 \<longrightarrow>
            tick_inv n np t (snd (for_loop (tick_body env np n) [0..<t] st)))"
proof -
  have body: "fst (tick_body env np n i s) = ret (tick_status env n i) \<and>
        trace (snd (tick_body env np n i s)) = trace s @ tick_events env n np i \<and>
        (tick_status env n i = 0 \<longrightarrow> tick_inv n np (Suc i) (snd (tick_body env np n i s)))"
    if "0 \<le> i" "i < t" "tick_inv n np i s" for i and s :: "'v state"
    using that(3) by (rule tick_body_props)
  show ?thesis
    using for_loop_upt[where Inv = "tick_inv n np" and body = "tick_body env np n"
        and r = "tick_status env n" and ev = "tick_events env n np" and a = 0 and b = t
        and st = st, OF body assms le0] .
qed

lemma final_body_frame:
  "control (snd (final_body env np d st)) = control st"
  "input (snd (final_body env np d st)) = input st"
  by (simp_all add: final_body_def io_defs)

lemma final_loop_props:
  fixes st :: "'v state"
  shows "fst (for_loop (final_body env np) [0..<n] st) = ret (first_nonzero (map (final_status env) [0..<n])) \<and>
   trace (snd (for_loop (final_body env np) [0..<n] st)) =
     trace st @ loop_events (final_status env) (final_events env) [0..<n] \<and>
   (first_nonzero (map (final_status env) [0..<n]) = 0 \<longrightarrow>
      control (snd (for_loop (final_body env np) [0..<n] st)) = control st \<and>
      input (snd (for_loop (final_body env np) [0..<n] st)) = input st)"
proof -
  have body: "fst (final_body env np i s) = ret (final_status env i) \<and>
        trace (snd (final_body env np i s)) = trace s @ final_events env i \<and>
        (final_status env i = 0 \<longrightarrow>
           control (snd (final_body env np i s)) = control st \<and>
           input (snd (final_body env np i s)) = input st)"
    if "0 \<le> i" "i < n" "control s = control st \<and> input s = input st"
    for i and s :: "'v state"
    using that(3)
    by (simp add: final_body_fst final_body_trace final_status_def final_body_frame)
  have inv0: "control st = control st \<and> input st = input st" by simp
  show ?thesis
    using for_loop_upt[where Inv = "\<lambda>i s. control s = control st \<and> input s = input st"
        and body = "final_body env np"
        and r = "final_status env" and ev = "final_events env" and a = 0 and b = n
        and st = st, OF body inv0 le0] .
qed

lemma validate_body_props:
  "trace (validate_body env g (g_nx g * g_ny g) d st) =
     trace st @ [result_line env g (inout st) (control st) d]"
  "inout (validate_body env g np d st) = inout st"
  "control (validate_body env g np d st) = control st"
  "input (validate_body env g np d st) = input st"
  by (simp_all add: validate_body_def result_line_def io_defs case_prod_beta)

lemma validate_loop_props:
  "trace (fold (validate_body env g (g_nx g * g_ny g)) ds st) =
     trace st @ map (result_line env g (inout st) (control st)) ds \<and>
   inout (fold (validate_body env g (g_nx g * g_ny g)) ds st) = inout st \<and>
   control (fold (validate_body env g (g_nx g * g_ny g)) ds st) = control st \<and>
   input (fold (validate_body env g (g_nx g * g_ny g)) ds st) = input st"
  by (induction ds arbitrary: st) (simp_all add: validate_body_props)

section \<open>What \<open>main\<close> returns and prints\<close>

lemma main_count_fails:
  "status_of env CudaGetDeviceCount \<noteq> 0 \<Longrightarrow>
   main g env = (status_of env CudaGetDeviceCount,
     (start env)\<lparr>trace := [Call CudaGetDeviceCount, err_line env CudaGetDeviceCount]\<rparr>)"
  by (simp add: main_def io_defs start_def)

lemma main_no_devices:
  "status_of env CudaGetDeviceCount = 0 \<Longrightarrow> ndevices_found env = 0 \<Longrightarrow>
   main g env = (0,
     (start env)\<lparr>trace := [Call CudaGetDeviceCount, Stdout ''%d CUDA device(s) found'' [I 0]]\<rparr>)"
  by (simp add: main_def io_defs start_def)

lemma main_devices:
  "status_of env CudaGetDeviceCount = 0 \<Longrightarrow> ndevices_found env \<noteq> 0 \<Longrightarrow>
   main g env =
     (case for_loop (init_body env g (g_nx g * g_ny g)) [0..<ndevices_found env] (prepared g env) of
        (Some s, st) \<Rightarrow> (s, st)
      | (None, st6) \<Rightarrow>
     (case for_loop (tick_body env (g_nx g * g_ny g) (ndevices_found env)) [0..<g_nticks g]
             (st6\<lparr>control := ndevices_found env * (g_nx g * g_ny g),
                  input := (ndevices_found env + 1) * (g_nx g * g_ny g)\<rparr>) of
        (Some s, st) \<Rightarrow> (s, st)
      | (None, st8) \<Rightarrow>
     (case for_loop (final_body env (g_nx g * g_ny g)) [0..<ndevices_found env]
             (st8\<lparr>control := input st8, input := control st8\<rparr>) of
        (Some s, st) \<Rightarrow> (s, st)
      | (None, st10) \<Rightarrow>
     (0, fold (validate_body env g (g_nx g * g_ny g)) [0..<ndevices_found env] st10))))"
  unfolding main_def Let_def by (simp add: io_defs start_def prepared_def)

lemma program_order_status:
  "first_status env (program_order g env) =
     (if status_of env CudaGetDeviceCount \<noteq> 0 then status_of env CudaGetDeviceCount
      else if first_nonzero (map (init_status env) [0..<ndevices_found env]) \<noteq> 0
        then first_nonzero (map (init_status env) [0..<ndevices_found env])
      else if first_nonzero (map (tick_status env (ndevices_found env)) [0..<g_nticks g]) \<noteq> 0
        then first_nonzero (map (tick_status env (ndevices_found env)) [0..<g_nticks g])
      else first_nonzero (map (final_status env) [0..<ndevices_found env]))"
proof -
  have t: "(\<lambda>i. first_status env (tick_sites n i)) = tick_status env n" for n
    by (rule ext) (simp add: tick_sites_def first_status_concat tick_status_def step_status_def[abs_def])
  show ?thesis
    by (simp add: program_order_def first_status_Cons first_status_append first_status_concat t
        init_status_def[abs_def] final_status_def[abs_def])
qed


lemma main_master:
  fixes env :: "('v::ord) env"
  shows "fst (main g env) = first_status env (program_order g env) \<and>
     trace (snd (main g env)) =
       expected_trace g env (inout (snd (main g env))) (control (snd (main g env))) \<and>
     (fst (main g env) = 0 \<and> ndevices_found env \<noteq> 0 \<longrightarrow>
        control (snd (main g env)) =
          input_at (ndevices_found env) (g_nx g * g_ny g) (g_nticks g) \<and>
        input (snd (main g env)) =
          control_at (ndevices_found env) (g_nx g * g_ny g) (g_nticks g))"
proof -
  let ?n = "ndevices_found env" and ?np = "g_nx g * g_ny g" and ?T = "g_nticks g"
  let ?s1 = "first_nonzero (map (init_status env) [0..<?n])"
  let ?s2 = "first_nonzero (map (tick_status env ?n) [0..<?T])"
  let ?s3 = "first_nonzero (map (final_status env) [0..<?n])"
  consider (count) "status_of env CudaGetDeviceCount \<noteq> 0"
    | (none) "status_of env CudaGetDeviceCount = 0" "?n = 0"
    | (devices) "status_of env CudaGetDeviceCount = 0" "?n \<noteq> 0"
    by blast
  then show ?thesis
  proof cases
    case count
    then show ?thesis
      by (simp add: main_count_fails program_order_status expected_trace_def)
  next
    case none
    then show ?thesis
      by (simp add: main_no_devices program_order_status expected_trace_def
          first_nonzero_zero tick_status_def)
  next
    case devices
    note m = main_devices[OF devices, of g]
    have len: "length (configs (prepared g env)) = ?n" by (simp add: prepared_def)
    obtain x1 st6 where L1:
      "for_loop (init_body env g ?np) [0..<?n] (prepared g env) = (x1, st6)"
      by (cases "for_loop (init_body env g ?np) [0..<?n] (prepared g env)")
    have f1: "x1 = ret ?s1"
      "trace st6 = trace (prepared g env) @ loop_events (init_status env) (init_events env) [0..<?n]"
      "?s1 = 0 \<longrightarrow> init_inv ?n ?n st6"
      using init_loop_props[OF len, where env = env and g = g and np = ?np] L1 by simp_all
    show ?thesis
    proof (cases "?s1 = 0")
      case False
      then have "main g env = (?s1, st6)" using m L1 f1 by (simp add: ret_def)
      then show ?thesis
        using False f1 devices
        by (simp add: program_order_status expected_trace_def prepared_def Let_def)
    next
      case s1: True
      let ?st7 = "st6\<lparr>control := ?n * ?np, input := (?n + 1) * ?np\<rparr>"
      have inv7: "tick_inv ?n ?np 0 ?st7"
        using f1(3) s1 by (simp add: tick_inv_def init_inv_def control_at_def input_at_def)
      obtain x2 st8 where L2:
        "for_loop (tick_body env ?np ?n) [0..<?T] ?st7 = (x2, st8)"
        by (cases "for_loop (tick_body env ?np ?n) [0..<?T] ?st7")
      have f2: "x2 = ret ?s2"
        "trace st8 = trace ?st7 @ loop_events (tick_status env ?n) (tick_events env ?n ?np) [0..<?T]"
        "?s2 = 0 \<longrightarrow> tick_inv ?n ?np ?T st8"
        using tick_loop_props[OF inv7, where env = env and t = ?T] L2 by simp_all
      show ?thesis
      proof (cases "?s2 = 0")
        case False
        then have "main g env = (?s2, st8)" using m L1 L2 f1 f2 s1 by (simp add: ret_def)
        then show ?thesis
          using False f1 f2 s1 devices
          by (simp add: program_order_status expected_trace_def prepared_def Let_def)
      next
        case s2: True
        let ?st9 = "st8\<lparr>control := input st8, input := control st8\<rparr>"
        obtain x3 st10 where L3:
          "for_loop (final_body env ?np) [0..<?n] ?st9 = (x3, st10)"
          by (cases "for_loop (final_body env ?np) [0..<?n] ?st9")
        have f3: "x3 = ret ?s3"
          "trace st10 = trace ?st9 @ loop_events (final_status env) (final_events env) [0..<?n]"
          "?s3 = 0 \<longrightarrow> control st10 = control ?st9 \<and> input st10 = input ?st9"
          using final_loop_props[where env = env and np = ?np and n = ?n and st = ?st9] L3
          by simp_all
        show ?thesis
        proof (cases "?s3 = 0")
          case False
          then have "main g env = (?s3, st10)"
            using m L1 L2 L3 f1 f2 f3 s1 s2 by (simp add: ret_def)
          then show ?thesis
            using False f1 f2 f3 s1 s2 devices
            by (simp add: program_order_status expected_trace_def prepared_def Let_def)
        next
          case s3: True
          have "main g env = (0, fold (validate_body env g ?np) [0..<?n] st10)"
            using m L1 L2 L3 f1 f2 f3 s1 s2 s3 by (simp add: ret_def)
          moreover have "control st10 = input_at ?n ?np ?T" "input st10 = control_at ?n ?np ?T"
            using f3(3) s3 f2(3) s2 by (simp_all add: tick_inv_def)
          ultimately show ?thesis
            using f1 f2 f3 s1 s2 s3 devices
            by (simp add: program_order_status expected_trace_def prepared_def
                validate_loop_props Let_def)
        qed
      qed
    qed
  qed
qed

lemma first_nonzero_upt:
  "k < t \<Longrightarrow> (\<forall>i<k. r i = 0) \<Longrightarrow>
   first_nonzero (map r [0..<t]) =
     (if r k \<noteq> 0 then r k else first_nonzero (map r [Suc k..<t]))"
proof -
  assume k: "k < t" and z: "\<forall>i<k. r i = 0"
  have "[0..<t] = [0..<k] @ k # [Suc k..<t]"
    using k by (metis le_add_diff_inverse less_imp_le_nat upt_add_eq_append upt_conv_Cons zero_le)
  moreover have "first_nonzero (map r [0..<k]) = 0" using z by (simp add: first_nonzero_zero)
  ultimately show ?thesis by (simp add: first_nonzero_append)
qed

lemma first_status_zero: "first_status env cs = 0 \<longleftrightarrow> (\<forall>c\<in>set cs. status_of env c = 0)"
  by (simp add: first_status_def first_nonzero_zero)

lemma tick_status_sites: "tick_status env n i = first_status env (tick_sites n i)"
  by (simp add: tick_sites_def first_status_concat tick_status_def step_status_def[abs_def])

lemma reaches_joinD:
  assumes "reaches_join g env k"
  shows "k < g_nticks g"
    and "status_of env CudaGetDeviceCount = 0"
    and "\<forall>d<ndevices_found env. init_status env d = 0"
    and "\<forall>i<k. tick_status env (ndevices_found env) i = 0"
proof -
  have a: "\<forall>c\<in>set (tested_before_tick g env k). status_of env c = 0"
    using assms by (simp add: reaches_join_def)
  show "k < g_nticks g" using assms by (simp add: reaches_join_def)
  show "status_of env CudaGetDeviceCount = 0" using a by (simp add: tested_before_tick_def)
  show "\<forall>d<ndevices_found env. init_status env d = 0"
  proof (intro allI impI)
    fix d assume "d < ndevices_found env"
    then have "set (init_sites d) \<subseteq> set (tested_before_tick g env k)"
      by (auto simp: tested_before_tick_def)
    then show "init_status env d = 0"
      using a by (auto simp: init_status_def first_status_zero)
  qed
  show "\<forall>i<k. tick_status env (ndevices_found env) i = 0"
  proof (intro allI impI)
    fix i assume "i < k"
    then have "set (tick_sites (ndevices_found env) i) \<subseteq> set (tested_before_tick g env k)"
      by (auto simp: tested_before_tick_def)
    then show "tick_status env (ndevices_found env) i = 0"
      using a by (auto simp: tick_status_sites first_status_zero)
  qed
qed

lemma exit_at_join:
  assumes "reaches_join g env k" and "tick_status env (ndevices_found env) k \<noteq> 0"
  shows "fst (main g env) = tick_status env (ndevices_found env) k"
proof -
  note r = reaches_joinD[OF assms(1)]
  have "first_nonzero (map (init_status env) [0..<ndevices_found env]) = 0"
    using r(3) by (simp add: first_nonzero_zero)
  moreover have "first_nonzero (map (tick_status env (ndevices_found env)) [0..<g_nticks g]) =
      tick_status env (ndevices_found env) k"
    using first_nonzero_upt[OF r(1), of "tick_status env (ndevices_found env)"] r(4) assms(2)
    by simp
  ultimately show ?thesis
    using main_master[of g env] r(2) assms(2) by (simp add: program_order_status)
qed

lemma at_tick_inv:
  assumes "reaches_join g env k"
  shows "tick_inv (ndevices_found env) (g_nx g * g_ny g) k (at_tick g env k)"
proof -
  let ?n = "ndevices_found env" and ?np = "g_nx g * g_ny g"
  note r = reaches_joinD[OF assms]
  have len: "length (configs (prepared g env)) = ?n" by (simp add: prepared_def)
  have "first_nonzero (map (init_status env) [0..<?n]) = 0"
    using r(3) by (simp add: first_nonzero_zero)
  then have "init_inv ?n ?n (snd (for_loop (init_body env g ?np) [0..<?n] (prepared g env)))"
    using init_loop_props[OF len, where env = env and g = g and np = ?np] by simp
  then have inv0: "tick_inv ?n ?np 0 (initialised g env)"
    by (simp add: initialised_def Let_def tick_inv_def init_inv_def control_at_def input_at_def)
  have "first_nonzero (map (tick_status env ?n) [0..<k]) = 0"
    using r(4) by (simp add: first_nonzero_zero)
  then show ?thesis
    using tick_loop_props[OF inv0, where env = env and t = k] by (simp add: at_tick_def)
qed

lemma at_join_configs:
  assumes "reaches_join g env k" and "d < ndevices_found env"
  shows "status (configs (at_join g env k) ! d) = step_status env k d"
    and "idevice (configs (at_join g env k) ! d) = int d"
    and "step (configs (at_join g env k) ! d) =
           (if status_of env (CuCtxPushStep k d) = 0 \<and> status_of env (Pattern2dGpu k d) = 0
            then int k + 1 else int k)"
  using gpu_section_props(5)[OF at_tick_inv[OF assms(1)], of env] assms(2)
  by (simp_all add: at_join_def cpu_section_props)

lemma program_order_no_cpu: "Pattern2dCpu i a b \<notin> set (program_order g env)"
  by (auto simp: program_order_def init_sites_def tick_sites_def step_sites_def final_sites_def)

lemma loop_events_ok: "\<forall>i\<in>set is. r i = 0 \<Longrightarrow> loop_events r ev is = concat (map ev is)"
  by (induction "is") simp_all

lemma trace_success:
  fixes env :: "('v::ord) env"
  assumes "fst (main g env) = 0" and "ndevices_found env \<noteq> 0"
  shows "trace (snd (main g env)) =
     [Call CudaGetDeviceCount,
      Stdout ''%d CUDA device(s) found'' [I (int (ndevices_found env))],
      Stdout ''%d OpenMP threads used'' [I (nthreads_found env)]] @
     concat (map (init_events env) [0..<ndevices_found env]) @
     concat (map (tick_events env (ndevices_found env) (g_nx g * g_ny g)) [0..<g_nticks g]) @
     concat (map (final_events env) [0..<ndevices_found env]) @
     map (result_line env g (inout (snd (main g env))) (control (snd (main g env))))
       [0..<ndevices_found env]"
proof -
  have z: "status_of env CudaGetDeviceCount = 0"
    "first_nonzero (map (init_status env) [0..<ndevices_found env]) = 0"
    "first_nonzero (map (tick_status env (ndevices_found env)) [0..<g_nticks g]) = 0"
    "first_nonzero (map (final_status env) [0..<ndevices_found env]) = 0"
    using assms(1) main_master[of g env]
    by (auto simp: program_order_status split: if_splits)
  then show ?thesis
    using main_master[of g env] assms(2)
    by (simp add: expected_trace_def Let_def loop_events_ok first_nonzero_zero)
qed

lemma err_line_not_stdout: "err_line env c \<noteq> Stdout f a" "Stdout f a \<noteq> err_line env c"
  by (cases c; simp)+

lemma err_line_not_call: "err_line env c \<noteq> Call c'" "Call c' \<noteq> err_line env c"
  by (cases c; simp)+

lemma block_events_count_stdout:
  "count_list (block_events env cs fin) (Stdout f a) =
     (if first_status env cs = 0 then count_list fin (Stdout f a) else 0)"
  by (induction cs) (simp_all add: first_status_Cons first_status_Nil err_line_not_stdout)

lemma block_events_calls:
  "Call c \<in> set (block_events env cs fin) \<Longrightarrow> c \<in> set cs \<or> Call c \<in> set fin"
  by (induction cs) (auto simp: err_line_not_call split: if_splits)

lemma block_events_stdout:
  "Stdout f a \<in> set (block_events env cs fin) \<Longrightarrow> Stdout f a \<in> set fin"
  by (induction cs) (auto simp: err_line_not_stdout split: if_splits)

lemma loop_events_set: "set (loop_events r ev is) \<subseteq> (\<Union>i\<in>set is. set (ev i))"
  by (induction "is") auto

lemma loop_events_append:
  "loop_events r ev (xs @ ys) =
     loop_events r ev xs @ (if first_nonzero (map r xs) \<noteq> 0 then [] else loop_events r ev ys)"
  by (induction xs) simp_all

lemma loop_events_upt:
  assumes "k < t" and "\<forall>i<k. r i = 0"
  shows "loop_events r ev [0..<t] =
     concat (map ev [0..<k]) @ ev k @
     (if r k \<noteq> 0 then [] else loop_events r ev [Suc k..<t])"
proof -
  have "[0..<t] = [0..<k] @ k # [Suc k..<t]"
    using assms(1)
    by (metis le_add_diff_inverse less_imp_le_nat upt_add_eq_append upt_conv_Cons zero_le)
  moreover have "first_nonzero (map r [0..<k]) = 0" using assms(2) by (simp add: first_nonzero_zero)
  moreover have "loop_events r ev [0..<k] = concat (map ev [0..<k])"
    using assms(2) by (simp add: loop_events_ok)
  ultimately show ?thesis by (simp add: loop_events_append)
qed

text \<open>What a run that arrives at the join of tick k has printed, and what may follow.\<close>

lemma trace_reaches_join:
  fixes env :: "('v::ord) env"
  assumes "reaches_join g env k" and "ndevices_found env \<noteq> 0"
  shows "trace (snd (main g env)) =
     [Call CudaGetDeviceCount,
      Stdout ''%d CUDA device(s) found'' [I (int (ndevices_found env))],
      Stdout ''%d OpenMP threads used'' [I (nthreads_found env)]] @
     concat (map (init_events env) [0..<ndevices_found env]) @
     concat (map (tick_events env (ndevices_found env) (g_nx g * g_ny g)) [0..<k]) @
     tick_events env (ndevices_found env) (g_nx g * g_ny g) k @
     (if tick_status env (ndevices_found env) k \<noteq> 0 then []
      else loop_events (tick_status env (ndevices_found env))
             (tick_events env (ndevices_found env) (g_nx g * g_ny g)) [Suc k..<g_nticks g] @
        (if first_nonzero (map (tick_status env (ndevices_found env)) [Suc k..<g_nticks g]) \<noteq> 0
         then []
         else loop_events (final_status env) (final_events env) [0..<ndevices_found env] @
           (if first_nonzero (map (final_status env) [0..<ndevices_found env]) \<noteq> 0 then []
            else map (result_line env g (inout (snd (main g env))) (control (snd (main g env))))
                   [0..<ndevices_found env])))"
proof -
  note r = reaches_joinD[OF assms(1)]
  have s1: "first_nonzero (map (init_status env) [0..<ndevices_found env]) = 0"
    using r(3) by (simp add: first_nonzero_zero)
  have i: "loop_events (init_status env) (init_events env) [0..<ndevices_found env] =
      concat (map (init_events env) [0..<ndevices_found env])"
    using r(3) by (simp add: loop_events_ok)
  note t = loop_events_upt[OF r(1) r(4), of "tick_events env (ndevices_found env) (g_nx g * g_ny g)"]
  note f = first_nonzero_upt[OF r(1) r(4)]
  show ?thesis
    using main_master[of g env] assms(2) r(2) s1
    by (simp add: expected_trace_def Let_def i t f)
qed

lemma block_events_all:
  assumes "\<forall>c\<in>set cs. P (Call c) \<and> P (err_line env c)" and "\<forall>e\<in>set fin. P e"
  shows "\<forall>e\<in>set (block_events env cs fin). P e"
  using assms by (induction cs) auto

lemma count_list_concat:
  "count_list (concat xss) x = sum_list (map (\<lambda>xs. count_list xs x) xss)"
  by (induction xss) simp_all

lemma sum_list_indicator:
  "distinct ds \<Longrightarrow>
   sum_list (map (\<lambda>d'. if d' = d \<and> P then 1 else 0) ds) = (if d \<in> set ds \<and> P then (1::nat) else 0)"
  by (induction ds) auto

lemma step_events_count:
  "count_list (step_events env j d')
     (Stdout ''Device %d completed step %d'' [I (int d), I (int k + 1)]) =
   (if d' = d \<and> (j = k \<and> step_status env k d = 0) then 1 else 0)"
  by (auto simp: step_events_def block_events_count_stdout step_status_def)

lemma join_events_stderr: "e \<in> set (join_events env i d) \<Longrightarrow> \<exists>f a. e = Stderr f a"
  by (auto simp: join_events_def split: if_splits)

lemma tick_events_count:
  "count_list (tick_events env n np j)
     (Stdout ''Device %d completed step %d'' [I (int d), I (int k + 1)]) =
   (if d < n \<and> (j = k \<and> step_status env k d = 0) then 1 else 0)"
proof -
  let ?L = "Stdout ''Device %d completed step %d'' [I (int d), I (int k + 1)] :: 'a event"
  have "?L \<notin> set (loop_events (step_status env j) (join_events env j) [0..<n])"
    using loop_events_set[of "step_status env j" "join_events env j" "[0..<n]"]
      join_events_stderr[of ?L env j] by auto
  then have "count_list (loop_events (step_status env j) (join_events env j) [0..<n]) ?L = 0"
    by simp
  then show ?thesis
    using sum_list_indicator[OF schedule_distinct, where env1 = env and i1 = j and n1 = n and d = d and P = "j = k \<and> step_status env k d = 0"]
    by (simp add: tick_events_def count_list_concat step_events_count comp_def schedule_set)
qed

lemma completed_not_init:
  "Stdout ''Device %d completed step %d'' a \<notin> set (init_events env d')"
proof
  assume "Stdout ''Device %d completed step %d'' a \<in> set (init_events env d')"
  then have "Stdout ''Device %d completed step %d'' a \<in>
      set [Stdout ''Device %d initialized'' [I (int d')]]"
    unfolding init_events_def by (rule block_events_stdout)
  then show False by simp
qed

lemma completed_not_final:
  "Stdout ''Device %d completed step %d'' a \<notin> set (final_events env d')"
proof
  assume "Stdout ''Device %d completed step %d'' a \<in> set (final_events env d')"
  then have "Stdout ''Device %d completed step %d'' a \<in>
      set [Stdout ''Device %d deinitialized'' [I (int d')]]"
    unfolding final_events_def by (rule block_events_stdout)
  then show False by simp
qed

lemma completed_not_result:
  "Stdout ''Device %d completed step %d'' a \<noteq> result_line env g xs c d'"
  by (simp add: result_line_def case_prod_beta)

lemma tick_status_zero:
  "tick_status env n k = 0 \<longleftrightarrow> (\<forall>d<n. step_status env k d = 0)"
  by (auto simp: tick_status_def first_nonzero_zero)

lemma completed_count:
  fixes env :: "('v::ord) env"
  assumes "reaches_join g env k" and "d < ndevices_found env"
  shows "count_list (trace (snd (main g env)))
       (Stdout ''Device %d completed step %d'' [I (int d), I (int k + 1)]) =
     (if step_status env k d = 0 then 1 else 0)"
proof -
  let ?n = "ndevices_found env" and ?np = "g_nx g * g_ny g"
  let ?L = "Stdout ''Device %d completed step %d'' [I (int d), I (int k + 1)] :: 'v event"
  have n: "?n \<noteq> 0" using assms(2) by simp
  have other: "?L \<notin> set (tick_events env ?n ?np j)" if "j \<noteq> k" for j
    using tick_events_count[of env ?n ?np j d k] that by (simp add: count_list_0_iff)
  have before: "count_list (concat (map (tick_events env ?n ?np) [0..<k])) ?L = 0"
    using other by (auto simp: count_list_0_iff)
  have inits: "count_list (concat (map (init_events env) [0..<?n])) ?L = 0"
    by (auto simp: count_list_0_iff completed_not_init)
  have later: "?L \<notin> set (loop_events (tick_status env ?n) (tick_events env ?n ?np)
      [Suc k..<g_nticks g])"
    using loop_events_set[of "tick_status env ?n" "tick_events env ?n ?np" "[Suc k..<g_nticks g]"]
      other by auto
  have finals: "?L \<notin> set (loop_events (final_status env) (final_events env) [0..<?n])"
    using loop_events_set[of "final_status env" "final_events env" "[0..<?n]"]
    by (auto simp: completed_not_final)
  have results: "?L \<notin> set (map (result_line env g xs c) [0..<?n])" for xs c
    by (auto simp: completed_not_result)
  show ?thesis
    unfolding trace_reaches_join[OF assms(1) n]
    using before inits later finals results assms(2)
    by (simp add: tick_events_count)
qed

lemma at_tick_step:
  assumes "reaches_join g env k" and "d < ndevices_found env"
  shows "step (configs (at_tick g env k) ! d) = int k"
    and "length (configs (at_tick g env k)) = ndevices_found env"
  using at_tick_inv[OF assms(1)] assms(2) by (simp_all add: tick_inv_def)

lemma reaches_first_join:
  "reaches_join globals0 env_kernel_fails 0" "reaches_join globals0 env_pop_fails 0"
  by (simp_all add: reaches_join_def tested_before_tick_def globals0_def env_kernel_fails_def
      env_pop_fails_def quiet_def init_sites_def upt_rec)

lemma two_devices:
  "ndevices_found env_kernel_fails = 2" "ndevices_found env_pop_fails = 2"
  by (simp_all add: env_kernel_fails_def env_pop_fails_def quiet_def)

lemma kernel_fails_steps:
  "step_status env_kernel_fails 0 0 = 0" "step_status env_kernel_fails 0 1 = 7"
  by (simp_all add: step_status_def step_sites_def first_status_def env_kernel_fails_def)

lemma pop_fails_steps:
  "step_status env_pop_fails 0 0 = 3"
  "status_of env_pop_fails (CuCtxPushStep 0 0) = 0"
  "status_of env_pop_fails (Pattern2dGpu 0 0) = 0"
  by (simp_all add: step_status_def step_sites_def first_status_def env_pop_fails_def)

lemma init_events_kinds:
  "\<forall>e\<in>set (init_events env d). \<not> cleanup_event e \<and> \<not> validation_event e \<and> tick_of e = None"
  unfolding init_events_def
  by (rule block_events_all) (simp_all add: init_sites_def)

lemma step_events_kinds:
  "\<forall>e\<in>set (step_events env i d).
     \<not> cleanup_event e \<and> \<not> validation_event e \<and> (tick_of e = None \<or> tick_of e = Some i)"
  unfolding step_events_def
  by (rule block_events_all) (simp_all add: step_sites_def)

lemma tick_events_kinds:
  "\<forall>e\<in>set (tick_events env n np i).
     \<not> cleanup_event e \<and> \<not> validation_event e \<and> (tick_of e = None \<or> tick_of e = Some i)"
proof
  fix e assume "e \<in> set (tick_events env n np i)"
  then consider (st) d where "e \<in> set (step_events env i d)"
    | (cpu) "e = Call (Pattern2dCpu i (input_at n np i) (control_at n np i))"
    | (jn) "e \<in> set (loop_events (step_status env i) (join_events env i) [0..<n])"
    by (auto simp: tick_events_def)
  then show "\<not> cleanup_event e \<and> \<not> validation_event e \<and> (tick_of e = None \<or> tick_of e = Some i)"
  proof cases
    case st
    then show ?thesis using step_events_kinds by blast
  next
    case cpu
    then show ?thesis by simp
  next
    case jn
    then obtain d where "e \<in> set (join_events env i d)"
      using loop_events_set[of "step_status env i" "join_events env i" "[0..<n]"] by auto
    then obtain f a where "e = Stderr f a" using join_events_stderr by blast
    then show ?thesis by simp
  qed
qed

lemma abort_events:
  fixes env :: "('v::ord) env"
  assumes "reaches_join g env k" and "tick_status env (ndevices_found env) k \<noteq> 0"
  shows "\<forall>e\<in>set (trace (snd (main g env))).
     \<not> cleanup_event e \<and> \<not> validation_event e \<and> (\<forall>j. tick_of e = Some j \<longrightarrow> j \<le> k)"
proof -
  have n: "ndevices_found env \<noteq> 0"
    using assms(2) by (auto simp: tick_status_zero)
  let ?P = "\<lambda>e::'v event. \<not> cleanup_event e \<and> \<not> validation_event e \<and>
      (\<forall>j. tick_of e = Some j \<longrightarrow> j \<le> k)"
  have i: "?P e" if "e \<in> set (init_events env d)" for e d
    using init_events_kinds[of env d] that by auto
  have t: "?P e" if "e \<in> set (tick_events env (ndevices_found env) (g_nx g * g_ny g) j)"
    and "j \<le> k" for e j
    using tick_events_kinds[of env "ndevices_found env" "g_nx g * g_ny g" j] that by auto
  show ?thesis
    unfolding trace_reaches_join[OF assms(1) n]
    using assms(2) i t by (auto simp: ball_Un less_imp_le)
qed

lemma join_statuses:
  assumes "reaches_join g env k"
  shows "map (\<lambda>d. status (configs (at_join g env k) ! d)) [0..<ndevices_found env] =
     map (step_status env k) [0..<ndevices_found env]"
  using at_join_configs(1)[OF assms] by simp

lemma init_events_in_trace:
  fixes env :: "('v::ord) env"
  assumes "reaches_join g env k" and "d < ndevices_found env"
  shows "set (init_events env d) \<subseteq> set (trace (snd (main g env)))"
proof -
  have n: "ndevices_found env \<noteq> 0" using assms(2) by simp
  have "set (init_events env d) \<subseteq> set (concat (map (init_events env) [0..<ndevices_found env]))"
    using assms(2) by auto
  then show ?thesis
    unfolding trace_reaches_join[OF assms(1) n] by auto
qed

lemma cpu_writes_append: "cpu_writes (xs @ ys) = cpu_writes xs @ cpu_writes ys"
  by (simp add: cpu_writes_def)

lemma cpu_writes_Cons: "cpu_writes (e # es) = cpu_write e @ cpu_writes es"
  by (simp add: cpu_writes_def)

lemma cpu_writes_Nil: "cpu_writes [] = []"
  by (simp add: cpu_writes_def)

lemma cpu_writes_concat: "cpu_writes (concat xss) = concat (map cpu_writes xss)"
  by (induction xss) (simp_all add: cpu_writes_append cpu_writes_Nil)

lemma cpu_writes_none: "\<forall>e\<in>set es. cpu_write e = [] \<Longrightarrow> cpu_writes es = []"
  by (induction es) (simp_all add: cpu_writes_def)

lemma cpu_write_err_line: "cpu_write (err_line env c) = []"
  by (cases c) (simp_all add: cpu_write_def)

lemma cpu_writes_init_events: "cpu_writes (init_events env d) = []"
  unfolding init_events_def
  by (rule cpu_writes_none, rule block_events_all)
    (simp_all add: init_sites_def cpu_write_def cpu_write_err_line)

lemma cpu_writes_final_events: "cpu_writes (final_events env d) = []"
  unfolding final_events_def
  by (rule cpu_writes_none, rule block_events_all)
    (simp_all add: final_sites_def cpu_write_def cpu_write_err_line)

lemma cpu_writes_step_events: "cpu_writes (step_events env i d) = []"
  unfolding step_events_def
  by (rule cpu_writes_none, rule block_events_all)
    (simp_all add: step_sites_def cpu_write_def cpu_write_err_line)

lemma cpu_writes_tick_events: "cpu_writes (tick_events env n np i) = [control_at n np i]"
proof -
  have "cpu_writes (loop_events (step_status env i) (join_events env i) [0..<n]) = []"
  proof (rule cpu_writes_none, rule ballI)
    fix e assume "e \<in> set (loop_events (step_status env i) (join_events env i) [0..<n])"
    then obtain d where "e \<in> set (join_events env i d)"
      using loop_events_set[of "step_status env i" "join_events env i" "[0..<n]"] by auto
    then obtain f a where "e = Stderr f a" using join_events_stderr by blast
    then show "cpu_write e = []" by (simp add: cpu_write_def)
  qed
  moreover have "cpu_write (Call (Pattern2dCpu i (input_at n np i) (control_at n np i))) =
      [control_at n np i]"
    by (simp add: cpu_write_def)
  moreover have "cpu_writes (concat (map (step_events env i) (schedule env i n))) = []"
    by (simp add: cpu_writes_concat comp_def cpu_writes_step_events)
  ultimately show ?thesis by (simp add: tick_events_def cpu_writes_append cpu_writes_Cons)
qed

lemma concat_singletons: "concat (map (\<lambda>x. [f x]) xs) = map f xs"
  by (induction xs) simp_all

lemma concat_nils: "concat (map (\<lambda>x. []) xs) = []"
  by (induction xs) simp_all

lemma cpu_write_other: "cpu_write (Call CudaGetDeviceCount) = []" "cpu_write (Stdout f a) = []"
  "cpu_write (Stderr f a) = []"
  by (simp_all add: cpu_write_def)

lemma cpu_writes_success:
  fixes env :: "('v::ord) env"
  assumes "fst (main g env) = 0" and "ndevices_found env \<noteq> 0"
  shows "cpu_writes (trace (snd (main g env))) =
     map (control_at (ndevices_found env) (g_nx g * g_ny g)) [0..<g_nticks g]"
proof -
  have "cpu_writes (map (result_line env g xs c) [0..<ndevices_found env]) = []" for xs c
    by (rule cpu_writes_none) (auto simp: result_line_def case_prod_beta cpu_write_def)
  then show ?thesis
    unfolding trace_success[OF assms]
    by (simp add: cpu_writes_append cpu_writes_Cons cpu_writes_concat comp_def
        cpu_writes_init_events cpu_writes_final_events cpu_writes_tick_events concat_singletons
        cpu_write_other concat_nils)
qed

lemma success_statuses:
  fixes env :: "('v::ord) env"
  assumes "fst (main g env) = 0"
  shows "status_of env CudaGetDeviceCount = 0"
    "first_nonzero (map (init_status env) [0..<ndevices_found env]) = 0"
    "first_nonzero (map (tick_status env (ndevices_found env)) [0..<g_nticks g]) = 0"
    "first_nonzero (map (final_status env) [0..<ndevices_found env]) = 0"
  using assms main_master[of g env]
  by (auto simp: program_order_status split: if_splits)

lemma after_loop_inv:
  fixes env :: "('v::ord) env"
  assumes "fst (main g env) = 0"
  shows "tick_inv (ndevices_found env) (g_nx g * g_ny g) (g_nticks g) (at_tick g env (g_nticks g))"
proof -
  let ?n = "ndevices_found env" and ?np = "g_nx g * g_ny g"
  note z = success_statuses[OF assms]
  have len: "length (configs (prepared g env)) = ?n" by (simp add: prepared_def)
  have "init_inv ?n ?n (snd (for_loop (init_body env g ?np) [0..<?n] (prepared g env)))"
    using init_loop_props[OF len, where env = env and g = g and np = ?np] z(2) by simp
  then have inv0: "tick_inv ?n ?np 0 (initialised g env)"
    by (simp add: initialised_def Let_def tick_inv_def init_inv_def control_at_def input_at_def)
  show ?thesis
    using tick_loop_props[OF inv0, where env = env and t = "g_nticks g"] z(3)
    by (simp add: at_tick_def)
qed

lemma final_events_not_validation: "\<forall>e\<in>set (final_events env d). \<not> validation_event e"
  unfolding final_events_def
  by (rule block_events_all) (simp_all add: final_sites_def)

lemma filter_concat_none:
  "\<forall>x\<in>set xs. \<forall>e\<in>set (f x). \<not> P e \<Longrightarrow> filter P (concat (map f xs)) = []"
  by (induction xs) simp_all

lemma validation_lines_success:
  fixes env :: "('v::ord) env"
  assumes "fst (main g env) = 0" and "ndevices_found env \<noteq> 0"
  shows "filter validation_event (trace (snd (main g env))) =
     map (result_line env g (inout (snd (main g env))) (control (snd (main g env))))
       [0..<ndevices_found env]"
proof -
  have i: "filter validation_event (concat (map (init_events env) [0..<ndevices_found env])) = []"
    using init_events_kinds[of env] by (intro filter_concat_none) blast
  have t: "filter validation_event (concat (map (tick_events env (ndevices_found env)
      (g_nx g * g_ny g)) [0..<g_nticks g])) = []"
    using tick_events_kinds[of env "ndevices_found env" "g_nx g * g_ny g"]
    by (intro filter_concat_none) blast
  have f: "filter validation_event (concat (map (final_events env) [0..<ndevices_found env])) = []"
    using final_events_not_validation[of env] by (intro filter_concat_none) blast
  have r: "filter validation_event (map (result_line env g xs c) ds) =
      map (result_line env g xs c) ds" for xs c ds
    by (induction ds) (simp_all add: result_line_def case_prod_beta)
  show ?thesis
    unfolding trace_success[OF assms] by (simp add: i t f r)
qed

lemma quiet_succeeds: "fst (main globals0 quiet) = 0"
  using main_master[of globals0 quiet] by (simp add: first_status_zero quiet_def)

lemma failed_calls_simps:
  "failed_calls env [] = []"
  "failed_calls env (e # es) = failed_call env e @ failed_calls env es"
  "failed_calls env (xs @ ys) = failed_calls env xs @ failed_calls env ys"
  by (simp_all add: failed_calls_def)

lemma failed_calls_concat:
  "failed_calls env (concat xss) = concat (map (failed_calls env) xss)"
  by (induction xss) (simp_all add: failed_calls_simps)

lemma failed_call_simps:
  "failed_call env (Stdout f a) = []"
  "failed_call env (Stderr f a) = []"
  "failed_call env (Call c) = (if tested c \<and> status_of env c \<noteq> 0 then [c] else [])"
  by (simp_all add: failed_call_def)

lemma err_line_own: "is_stderr (err_line env c)" "tested c \<Longrightarrow> \<not> join_line (err_line env c)"
  "failed_call env (err_line env c) = []"
  by (cases c; simp add: tested_def failed_call_def)+

lemma balanced_block:
  assumes "\<forall>c\<in>set cs. tested c" and "\<forall>e\<in>set fin. \<not> is_stderr e \<and> failed_call env e = []"
  shows "filter own_line (block_events env cs fin) =
     map (err_line env) (failed_calls env (block_events env cs fin))"
  using assms
proof (induction cs)
  case Nil
  then show ?case by (induction fin) (simp_all add: failed_calls_simps)
next
  case (Cons c cs)
  then show ?case by (simp add: failed_calls_simps failed_call_simps err_line_own)
qed

lemma balanced_loop:
  assumes "\<forall>i\<in>set js. filter own_line (ev i) = map (err_line env) (failed_calls env (ev i))"
  shows "filter own_line (loop_events r ev js) =
     map (err_line env) (failed_calls env (loop_events r ev js))"
  using assms by (induction js) (simp_all add: failed_calls_simps)

lemma balanced_concat:
  assumes "\<forall>i\<in>set is. filter own_line (ev i) = map (err_line env) (failed_calls env (ev i))"
  shows "filter own_line (concat (map ev is)) =
     map (err_line env) (failed_calls env (concat (map ev is)))"
  using assms by (induction "is") (simp_all add: failed_calls_simps)

lemma balanced_init: "filter own_line (init_events env d) =
     map (err_line env) (failed_calls env (init_events env d))"
  unfolding init_events_def
  by (rule balanced_block) (simp_all add: init_sites_def tested_def failed_call_simps)

lemma balanced_final: "filter own_line (final_events env d) =
     map (err_line env) (failed_calls env (final_events env d))"
  unfolding final_events_def
  by (rule balanced_block) (simp_all add: final_sites_def tested_def failed_call_simps)

lemma balanced_step: "filter own_line (step_events env i d) =
     map (err_line env) (failed_calls env (step_events env i d))"
  unfolding step_events_def
  by (rule balanced_block) (simp_all add: step_sites_def tested_def failed_call_simps)

lemma join_loop_lines:
  "\<forall>e\<in>set (loop_events (step_status env i) (join_events env i) ds).
     join_line e \<and> failed_call env e = []"
proof
  fix e assume "e \<in> set (loop_events (step_status env i) (join_events env i) ds)"
  then obtain d where "e \<in> set (join_events env i d)"
    using loop_events_set[of "step_status env i" "join_events env i" ds] by auto
  then show "join_line e \<and> failed_call env e = []"
    by (auto simp: join_events_def failed_call_simps split: if_splits)
qed

lemma filter_none: "\<forall>e\<in>set es. \<not> P e \<Longrightarrow> filter P es = []"
  by (induction es) simp_all

lemma failed_calls_none: "\<forall>e\<in>set es. failed_call env e = [] \<Longrightarrow> failed_calls env es = []"
  by (induction es) (simp_all add: failed_calls_simps)

lemma balanced_tick: "filter own_line (tick_events env n np i) =
     map (err_line env) (failed_calls env (tick_events env n np i))"
proof -
  have j: "filter own_line (loop_events (step_status env i) (join_events env i) [0..<n]) = []"
    "failed_calls env (loop_events (step_status env i) (join_events env i) [0..<n]) = []"
    using join_loop_lines[of env i "[0..<n]"]
    by (auto intro!: filter_none failed_calls_none)
  have s: "filter own_line (concat (map (step_events env i) (schedule env i n))) =
     map (err_line env) (failed_calls env (concat (map (step_events env i) (schedule env i n))))"
    by (rule balanced_concat) (simp add: balanced_step)
  show ?thesis
    unfolding tick_events_def
    by (simp add: failed_calls_simps j s failed_call_simps tested_def del: filter_concat)
qed

lemma balanced_results:
  "filter own_line (map (result_line env g xs c) ds) = []"
  "failed_calls env' (map (result_line env g xs c) ds) = []"
  by (induction ds) (simp_all add: result_line_def case_prod_beta failed_calls_simps failed_call_simps)

text \<open>In the trace of a run, where the events of each iteration of the parallel loop form
  one block, the lines of the failed calls come in the order of the calls.\<close>

lemma balanced_run:
  fixes env :: "('v::ord) env"
  shows "filter own_line (trace (snd (main g env))) =
     map (err_line env) (failed_calls env (trace (snd (main g env))))"
proof -
  let ?n = "ndevices_found env" and ?np = "g_nx g * g_ny g"
  note l1 = balanced_loop[where ev = "init_events env" and env = env and r = "init_status env"
      and js = "[0..<?n]"]
  note l2 = balanced_loop[where ev = "tick_events env ?n ?np" and env = env
      and r = "tick_status env ?n" and js = "[0..<g_nticks g]"]
  note l3 = balanced_loop[where ev = "final_events env" and env = env and r = "final_status env"
      and js = "[0..<?n]"]
  have e: "filter own_line (expected_trace g env xs c) =
      map (err_line env) (failed_calls env (expected_trace g env xs c))" for xs c
    unfolding expected_trace_def Let_def
    by (simp add: failed_calls_simps failed_call_simps tested_def l1 l2 l3
        balanced_init balanced_tick balanced_final balanced_results)
  show ?thesis using main_master[of g env] e by simp
qed

lemma failed_calls_mem:
  "c \<in> set (failed_calls env es) \<Longrightarrow> tested c \<and> status_of env c \<noteq> 0"
  by (induction es) (auto simp: failed_calls_simps failed_call_def split: event.splits if_splits)

lemma err_line_carries:
  assumes "tested c" and "\<forall>d. c \<noteq> CuCtxDestroy d"
  shows "\<exists>fmt. err_line env c = Stderr fmt (map (I \<circ> int) (site_device c) @ [I (status_of env c)])"
  using assms by (cases c) (simp_all add: tested_def)

lemma fsd_simps:
  "failed_step_devices env [] = []"
  "failed_step_devices env (xs @ ys) = failed_step_devices env xs @ failed_step_devices env ys"
  "failed_step_devices env (Stdout f a # es) = failed_step_devices env es"
  "failed_step_devices env (Stderr f a # es) = failed_step_devices env es"
  "failed_step_devices env (Call c # es) =
     (if step_site c \<and> status_of env c \<noteq> 0 then site_device c else []) @
     failed_step_devices env es"
  by (auto simp: failed_step_devices_def failed_calls_simps failed_call_simps step_site_def
      tested_def split: site.splits)

lemma fsd_err_line: "failed_step_devices env (err_line env' c # es) = failed_step_devices env es"
  by (cases c) (simp_all add: fsd_simps)

lemma fsd_concat:
  "failed_step_devices env (concat xss) = concat (map (failed_step_devices env) xss)"
  by (induction xss) (simp_all add: fsd_simps)

lemma fsd_none:
  "\<forall>e\<in>set es. \<forall>c. e = Call c \<longrightarrow> \<not> step_site c \<Longrightarrow> failed_step_devices env es = []"
proof (induction es)
  case Nil
  then show ?case by (simp add: fsd_simps)
next
  case (Cons e es)
  then show ?case by (cases e) (simp_all add: fsd_simps)
qed

lemma fsd_init: "failed_step_devices env (init_events env d) = []"
  unfolding init_events_def
  by (rule fsd_none, rule block_events_all)
    (simp_all add: init_sites_def step_site_def err_line_not_call)

lemma fsd_final: "failed_step_devices env (final_events env d) = []"
  unfolding final_events_def
  by (rule fsd_none, rule block_events_all)
    (simp_all add: final_sites_def step_site_def err_line_not_call)

lemma fsd_step:
  "failed_step_devices env (step_events env i d) = (if step_status env i d \<noteq> 0 then [d] else [])"
  by (simp add: step_events_def step_sites_def step_status_def first_status_def
      fsd_simps fsd_err_line step_site_def)

lemma join_free_block:
  assumes "\<forall>c\<in>set cs. tested c" and "\<forall>e\<in>set fin. \<not> join_line e"
  shows "filter join_line (block_events env cs fin) = []"
  by (rule filter_none, rule block_events_all) (use assms in \<open>simp_all add: err_line_own\<close>)

lemma join_free:
  "filter join_line (init_events env d) = []"
  "filter join_line (final_events env d) = []"
  "filter join_line (step_events env i d) = []"
  unfolding init_events_def final_events_def step_events_def
  by (rule join_free_block; simp add: init_sites_def final_sites_def step_sites_def tested_def)+

lemma concat_filter_singletons:
  "concat (map (\<lambda>d. if P d then [d] else []) ds) = filter P ds"
  by (induction ds) simp_all

lemma fsd_tick:
  "failed_step_devices env (tick_events env n np i) =
     filter (\<lambda>d. step_status env i d \<noteq> 0) (schedule env i n)"
proof -
  have "failed_step_devices env (loop_events (step_status env i) (join_events env i) [0..<n]) = []"
    using join_loop_lines[of env i "[0..<n]"] by (intro fsd_none) auto
  then show ?thesis
    by (simp add: tick_events_def fsd_simps fsd_concat comp_def fsd_step step_site_def
        concat_filter_singletons)
qed

lemma fsd_tick_empty:
  "failed_step_devices env (tick_events env n np i) = [] \<longleftrightarrow> tick_status env n i = 0"
  by (auto simp: fsd_tick filter_empty_conv schedule_set tick_status_zero)

lemma join_lines_tick:
  "filter join_line (tick_events env n np i) =
     (if tick_status env n i = 0 then []
      else [Stderr ''Cannot execute thread function for device %d, status = %d''
              [I (int (Min (set (failed_step_devices env (tick_events env n np i))))),
               I (tick_status env n i)]])"
proof -
  let ?r = "step_status env i"
  let ?J = "loop_events ?r (join_events env i) [0..<n]"
  have s: "filter join_line (concat (map (step_events env i) (schedule env i n))) = []"
    by (rule filter_concat_none) (simp add: join_free filter_empty_conv[symmetric])
  have fj: "filter join_line ?J = ?J"
    using join_loop_lines[of env i "[0..<n]"] by (simp add: filter_id_conv)
  have t: "filter join_line (tick_events env n np i) = ?J"
    using s fj by (simp add: tick_events_def del: filter_concat)
  show ?thesis
  proof (cases "tick_status env n i = 0")
    case True
    then have "\<forall>d\<in>set [0..<n]. ?r d = 0" by (simp add: tick_status_zero)
    then have "?J = concat (map (join_events env i) [0..<n])" by (rule loop_events_ok)
    also have "\<dots> = []" using True by (simp add: tick_status_zero join_events_def)
    finally show ?thesis using t True by simp
  next
    case False
    then have "\<exists>d. d < n \<and> ?r d \<noteq> 0" by (simp add: tick_status_zero)
    then obtain d0 where d0: "d0 < n" "?r d0 \<noteq> 0" "\<forall>j<d0. ?r j = 0"
      using exists_least_iff[of "\<lambda>d. d < n \<and> ?r d \<noteq> 0"] by (metis dual_order.strict_trans)
    have "concat (map (join_events env i) [0..<d0]) = []"
      using d0(3) by (simp add: join_events_def)
    then have J: "?J = join_events env i d0"
      using loop_events_upt[OF d0(1) d0(3), of "join_events env i"] d0(2) by simp
    have ts: "tick_status env n i = ?r d0"
      using first_nonzero_upt[OF d0(1) d0(3)] d0(2) by (simp add: tick_status_def)
    have "Min (set (failed_step_devices env (tick_events env n np i))) = d0"
    proof (rule Min_eqI)
      show "finite (set (failed_step_devices env (tick_events env n np i)))" by simp
      show "d0 \<in> set (failed_step_devices env (tick_events env n np i))"
        using d0 by (simp add: fsd_tick schedule_set)
      fix y assume "y \<in> set (failed_step_devices env (tick_events env n np i))"
      then have "?r y \<noteq> 0" by (simp add: fsd_tick)
      then show "d0 \<le> y" using d0(3) by (meson not_le)
    qed
    then show ?thesis using t J ts d0(2) False by (simp add: join_events_def)
  qed
qed

lemma join_lines_loop:
  "filter join_line (loop_events (tick_status env n) (tick_events env n np) js) =
     (if first_nonzero (map (tick_status env n) js) = 0 then []
      else [Stderr ''Cannot execute thread function for device %d, status = %d''
              [I (int (Min (set (failed_step_devices env
                 (loop_events (tick_status env n) (tick_events env n np) js))))),
               I (first_nonzero (map (tick_status env n) js))]]) \<and>
   (failed_step_devices env (loop_events (tick_status env n) (tick_events env n np) js) = [] \<longleftrightarrow>
      first_nonzero (map (tick_status env n) js) = 0)"
proof (induction js)
  case Nil
  then show ?case by (simp add: fsd_simps)
next
  case (Cons j js)
  show ?case
  proof (cases "tick_status env n j = 0")
    case True
    then have "failed_step_devices env (tick_events env n np j) = []"
      "filter join_line (tick_events env n np j) = []"
      by (simp_all add: fsd_tick_empty join_lines_tick)
    then show ?thesis using Cons True by (simp add: fsd_simps)
  next
    case False
    then show ?thesis
      using join_lines_tick[of env n np j] fsd_tick_empty[of env n np j]
      by (simp add: fsd_simps)
  qed
qed

lemma loop_filter_none:
  "\<forall>i\<in>set js. filter P (ev i) = [] \<Longrightarrow> filter P (loop_events r ev js) = []"
  by (induction js) simp_all

lemma loop_fsd_none:
  "\<forall>i\<in>set js. failed_step_devices env (ev i) = [] \<Longrightarrow>
   failed_step_devices env (loop_events r ev js) = []"
  by (induction js) (simp_all add: fsd_simps)

lemma results_no_step:
  "filter join_line (map (result_line env g xs c) ds) = []"
  "failed_step_devices env' (map (result_line env g xs c) ds) = []"
  by (induction ds) (simp_all add: result_line_def case_prod_beta fsd_simps)

lemma join_lines_run:
  fixes env :: "('v::ord) env"
  shows "filter join_line (trace (snd (main g env))) =
     (if failed_step_devices env (trace (snd (main g env))) = [] then []
      else [Stderr ''Cannot execute thread function for device %d, status = %d''
              [I (int (Min (set (failed_step_devices env (trace (snd (main g env))))))),
               I (fst (main g env))]])"
proof -
  let ?n = "ndevices_found env" and ?np = "g_nx g * g_ny g"
  let ?Li = "loop_events (init_status env) (init_events env) [0..<?n]"
  let ?Lt = "loop_events (tick_status env ?n) (tick_events env ?n ?np) [0..<g_nticks g]"
  let ?Lf = "loop_events (final_status env) (final_events env) [0..<?n]"
  have i: "filter join_line ?Li = []" "failed_step_devices env ?Li = []"
    by (simp_all add: loop_filter_none loop_fsd_none join_free fsd_init)
  have f: "filter join_line ?Lf = []" "failed_step_devices env ?Lf = []"
    by (simp_all add: loop_filter_none loop_fsd_none join_free fsd_final)
  note t = join_lines_loop[of env ?n ?np "[0..<g_nticks g]"]
  have c: "\<not> join_line (err_line env CudaGetDeviceCount)" by simp
  have e: "filter join_line (expected_trace g env xs c) =
     (if failed_step_devices env (expected_trace g env xs c) = [] then []
      else [Stderr ''Cannot execute thread function for device %d, status = %d''
              [I (int (Min (set (failed_step_devices env (expected_trace g env xs c))))),
               I (first_status env (program_order g env))]])" for xs c
    unfolding expected_trace_def Let_def program_order_status
    using i f t c
    by (simp add: fsd_simps fsd_err_line results_no_step step_site_def)
  show ?thesis using main_master[of g env] e by simp
qed

lemma kernel_fails_step_events:
  "step_events env_kernel_fails 0 0 =
      [Call (CuCtxPushStep 0 0), Call (Pattern2dGpu 0 0), Call (CuCtxPopStep 0 0),
       Stdout ''Device %d completed step %d'' [I 0, I 1]]"
  "step_events env_kernel_fails 0 (Suc 0) =
      [Call (CuCtxPushStep 0 1), Call (Pattern2dGpu 0 1),
       Stderr ''Cannot execute pattern 2d on device %d, status = %d'' [I 1, I 7]]"
proof -
  show "step_events env_kernel_fails 0 0 =
      [Call (CuCtxPushStep 0 0), Call (Pattern2dGpu 0 0), Call (CuCtxPopStep 0 0),
       Stdout ''Device %d completed step %d'' [I 0, I 1]]"
    apply (simp add: step_events_def step_sites_def)
    apply (simp add: env_kernel_fails_def)
    done
  show "step_events env_kernel_fails 0 (Suc 0) =
      [Call (CuCtxPushStep 0 1), Call (Pattern2dGpu 0 1),
       Stderr ''Cannot execute pattern 2d on device %d, status = %d'' [I 1, I 7]]"
    apply (simp add: step_events_def step_sites_def)
    apply (simp add: env_kernel_fails_def)
    done
qed

lemma kernel_fails_trace:
  "trace (snd (main globals0 env_kernel_fails)) =
     [Call CudaGetDeviceCount,
      Stdout ''%d CUDA device(s) found'' [I 2],
      Stdout ''%d OpenMP threads used'' [I 4],
      Call (CuDeviceGet 0), Call (CuCtxCreate 0), Call (CudaMallocIn 0), Call (CudaMallocOut 0),
      Call (CudaMemcpyH2D 0), Call (CuCtxPopInit 0), Stdout ''Device %d initialized'' [I 0],
      Call (CuDeviceGet 1), Call (CuCtxCreate 1), Call (CudaMallocIn 1), Call (CudaMallocOut 1),
      Call (CudaMemcpyH2D 1), Call (CuCtxPopInit 1), Stdout ''Device %d initialized'' [I 1],
      Call (CuCtxPushStep 0 0), Call (Pattern2dGpu 0 0), Call (CuCtxPopStep 0 0),
      Stdout ''Device %d completed step %d'' [I 0, I 1],
      Call (CuCtxPushStep 0 1), Call (Pattern2dGpu 0 1),
      Stderr ''Cannot execute pattern 2d on device %d, status = %d'' [I 1, I 7],
      Call (Pattern2dCpu 0 49152 32768),
      Stderr ''Cannot execute thread function for device %d, status = %d'' [I 1, I 7]]"
proof -
  note r = reaches_first_join(1)
  have n: "ndevices_found env_kernel_fails \<noteq> 0" by (simp add: two_devices)
  have ts: "tick_status env_kernel_fails 2 0 = 7"
    using kernel_fails_steps by (simp add: tick_status_def upt_rec)
  have i: "init_events env_kernel_fails d =
      [Call (CuDeviceGet d), Call (CuCtxCreate d), Call (CudaMallocIn d), Call (CudaMallocOut d),
       Call (CudaMemcpyH2D d), Call (CuCtxPopInit d), Stdout ''Device %d initialized'' [I (int d)]]"
    for d
    by (simp add: init_events_def init_sites_def env_kernel_fails_def)
  note s = kernel_fails_step_events
  have sch: "schedule env_kernel_fails 0 2 = [0, 1]"
    by (simp add: schedule_def env_kernel_fails_def quiet_def upt_rec)
  have t: "tick_events env_kernel_fails 2 16384 0 =
      step_events env_kernel_fails 0 0 @ step_events env_kernel_fails 0 1 @
      [Call (Pattern2dCpu 0 49152 32768),
       Stderr ''Cannot execute thread function for device %d, status = %d'' [I 1, I 7]]"
    using kernel_fails_steps
    by (simp add: tick_events_def sch input_at_def control_at_def join_events_def upt_rec)
  have g: "g_nx globals0 * g_ny globals0 = 16384" by (simp add: globals0_def)
  have th: "nthreads_found env_kernel_fails = 4" by (simp add: env_kernel_fails_def quiet_def)
  show ?thesis
    unfolding trace_reaches_join[OF r n] two_devices g
    by (simp add: ts i s t th upt_rec)
qed

section \<open>The host array and the validation\<close>


lemma tile_length: "length (tile np off xs) = np"
  by (simp add: tile_def)











lemma scan_first_max:
  fixes f :: "'p \<Rightarrow> 'v::linorder"
  shows "\<exists>pre post. p0 # ps = pre @ snd (fold (max_step f) ps (f p0, p0)) # post \<and>
     fst (fold (max_step f) ps (f p0, p0)) = f (snd (fold (max_step f) ps (f p0, p0))) \<and>
     (\<forall>x\<in>set pre. f x < fst (fold (max_step f) ps (f p0, p0))) \<and>
     (\<forall>x\<in>set post. f x \<le> fst (fold (max_step f) ps (f p0, p0)))"
proof (induction ps rule: rev_induct)
  case Nil
  have "p0 # [] = [] @ snd (fold (max_step f) [] (f p0, p0)) # [] \<and>
     fst (fold (max_step f) [] (f p0, p0)) = f (snd (fold (max_step f) [] (f p0, p0))) \<and>
     (\<forall>x\<in>set []. f x < fst (fold (max_step f) [] (f p0, p0))) \<and>
     (\<forall>x\<in>set []. f x \<le> fst (fold (max_step f) [] (f p0, p0)))"
    by simp
  then show ?case by (intro exI)
next
  case (snoc p ps)
  define r where "r = fold (max_step f) ps (f p0, p0)"
  obtain pre post where old: "p0 # ps = pre @ snd r # post" "fst r = f (snd r)"
    "\<forall>x\<in>set pre. f x < fst r" "\<forall>x\<in>set post. f x \<le> fst r"
    using snoc unfolding r_def by (elim exE conjE)
  have step: "fold (max_step f) (ps @ [p]) (f p0, p0) = max_step f p r"
    by (simp add: r_def)
  show ?case
  proof (cases "f p > fst r")
    case True
    have all: "\<forall>x\<in>set (p0 # ps). f x < f p"
    proof
      fix x assume "x \<in> set (p0 # ps)"
      then have "x \<in> set pre \<or> x = snd r \<or> x \<in> set post" unfolding old(1) by auto
      then have "f x \<le> fst r" using old(2,3,4) by (auto simp: less_imp_le)
      then show "f x < f p" using True by simp
    qed
    have m: "max_step f p r = (f p, p)" using True by (simp add: max_step_def)
    have "p0 # ps @ [p] = (p0 # ps) @ snd (f p, p) # [] \<and>
       fst (f p, p) = f (snd (f p, p)) \<and>
       (\<forall>x\<in>set (p0 # ps). f x < fst (f p, p)) \<and>
       (\<forall>x\<in>set []. f x \<le> fst (f p, p))"
      using all by simp
    then show ?thesis unfolding step m by (intro exI)
  next
    case False
    then have le: "f p \<le> fst r" by simp
    have m: "max_step f p r = r" using False by (simp add: max_step_def)
    have "p0 # ps @ [p] = pre @ snd r # (post @ [p])"
      using old(1) by simp
    moreover have "\<forall>x\<in>set (post @ [p]). f x \<le> fst r" using old(4) le by simp
    ultimately have "p0 # ps @ [p] = pre @ snd r # (post @ [p]) \<and>
       fst r = f (snd r) \<and>
       (\<forall>x\<in>set pre. f x < fst r) \<and>
       (\<forall>x\<in>set (post @ [p]). f x \<le> fst r)"
      using old(2,3) by blast
    then show ?thesis unfolding step m by (intro exI)
  qed
qed

lemma cells_Suc: "cells w (Suc h) = cells w h @ map (\<lambda>i. (i, h)) [0..<w]"
  by (simp add: cells_def)

lemma shifted: "map (\<lambda>i. i + h * w) [0..<w] = [w * h..<w * h + w]"
  using map_add_upt[of "h * w" w] by (simp only: mult.commute add.commute)

lemma cells_index: "map (\<lambda>(i, j). i + j * w) (cells w h) = [0..<w * h]"
proof (induction h)
  case 0
  then show ?case by (simp add: cells_def)
next
  case (Suc h)
  have "map (\<lambda>(i, j). i + j * w) (cells w (Suc h)) =
      map (\<lambda>(i, j). i + j * w) (cells w h) @ map (\<lambda>i. i + h * w) [0..<w]"
    by (simp add: cells_Suc comp_def)
  also have "\<dots> = [0..<w * h] @ [w * h..<w * h + w]"
    by (simp only: Suc shifted)
  also have "\<dots> = [0..<w * h + w]"
    using upt_add_eq_append[of 0 "w * h" w] by simp
  also have "w * h + w = w * Suc h" by simp
  finally show ?case .
qed

lemma cells_set: "set (cells w h) = {(i, j). i < w \<and> j < h}"
  by (auto simp: cells_def)

lemma fold_concat_map: "fold g (concat (map k js)) a = fold (\<lambda>j. fold g (k j)) js a"
  by (induction js arbitrary: a) simp_all

lemma find_max_diff_scan:
  "find_max_diff env w h xs c t =
     fold (max_step (\<lambda>(i, j). cell_diff env w xs c t i j)) (cells w h)
       (cell_diff env w xs c t 0 0, (0, 0))"
proof -
  have inner: "(\<lambda>i (maxdiff, maxi, maxj).
           let diff = absdiff env (xs ! (c + (i + j * w))) (xs ! (t + (i + j * w)))
           in if diff > maxdiff then (diff, i, j) else (maxdiff, maxi, maxj)) =
      (\<lambda>i. max_step (\<lambda>(i, j). cell_diff env w xs c t i j) (i, j))" for j
    by (auto simp: fun_eq_iff max_step_def Let_def cell_diff_def)
  have "fold (max_step (\<lambda>(i, j). cell_diff env w xs c t i j)) (cells w h) a =
      fold (\<lambda>j. fold (\<lambda>i. max_step (\<lambda>(i, j). cell_diff env w xs c t i j) (i, j)) [0..<w])
        [0..<h] a" for a
    unfolding cells_def by (simp add: fold_concat_map fold_map comp_def)
  then show ?thesis
    by (simp add: find_max_diff_def inner cell_diff_def)
qed

text \<open>The scan over cells whose differences are numbers is the scan over the numbers.\<close>

lemma ieee_order_simps:
  "(Num x < Num y) = (x < y)" "(Num x \<le> Num y) = (x \<le> y)"
  "\<not> NaN < b" "\<not> a < NaN" "\<not> NaN \<le> b" "\<not> a \<le> NaN"
  by (cases a; cases b; simp add: less_ieee_def less_eq_ieee_def)+

lemma scan_numbers:
  fixes f :: "'p \<Rightarrow> ('a::linorder) ieee"
  assumes "\<forall>p\<in>set ps. f p = Num (g p)"
  shows "fold (max_step f) ps (Num a, q) =
     (Num (fst (fold (max_step g) ps (a, q))), snd (fold (max_step g) ps (a, q)))"
  using assms
proof (induction ps arbitrary: a q)
  case Nil
  then show ?case by simp
next
  case (Cons p ps)
  have p: "f p = Num (g p)" using Cons.prems by simp
  have rest: "\<forall>p\<in>set ps. f p = Num (g p)" using Cons.prems by simp
  show ?case
  proof (cases "a < g p")
    case True
    then have "max_step f p (Num a, q) = (Num (g p), p)" "max_step g p (a, q) = (g p, p)"
      by (simp_all add: max_step_def p ieee_order_simps)
    then show ?thesis using Cons.IH[OF rest, of "g p" p] by simp
  next
    case False
    then have "max_step f p (Num a, q) = (Num a, q)" "max_step g p (a, q) = (a, q)"
      by (simp_all add: max_step_def p ieee_order_simps)
    then show ?thesis using Cons.IH[OF rest, of a q] by simp
  qed
qed

lemma scan_cells:
  fixes f :: "nat \<times> nat \<Rightarrow> 'v::linorder"
  assumes "0 < w" and "0 < h"
  shows "fst (snd (fold (max_step f) (cells w h) (f (0, 0), (0, 0)))) < w \<and>
     snd (snd (fold (max_step f) (cells w h) (f (0, 0), (0, 0)))) < h \<and>
     fst (fold (max_step f) (cells w h) (f (0, 0), (0, 0))) =
       f (snd (fold (max_step f) (cells w h) (f (0, 0), (0, 0)))) \<and>
     (\<forall>i<w. \<forall>j<h.
        f (i, j) \<le> fst (fold (max_step f) (cells w h) (f (0, 0), (0, 0))) \<and>
        (f (i, j) = fst (fold (max_step f) (cells w h) (f (0, 0), (0, 0))) \<longrightarrow>
           fst (snd (fold (max_step f) (cells w h) (f (0, 0), (0, 0)))) +
           snd (snd (fold (max_step f) (cells w h) (f (0, 0), (0, 0)))) * w
             \<le> i + j * w))"
proof -
  define idx where "idx = (\<lambda>(i::nat, j::nat). i + j * w)"
  define r where "r = fold (max_step f) (cells w h) (f (0, 0), (0, 0))"
  obtain pre post where sp: "(0, 0) # cells w h = pre @ snd r # post" "fst r = f (snd r)"
    "\<forall>x\<in>set pre. f x < fst r" "\<forall>x\<in>set post. f x \<le> fst r"
    using scan_first_max[of "(0::nat, 0::nat)" "cells w h" f] unfolding r_def
    by (elim exE conjE)
  have "snd r \<in> set ((0, 0) # cells w h)" unfolding sp(1) by simp
  then have q: "fst (snd r) < w" "snd (snd r) < h"
    using assms by (auto simp: cells_set)
  have "sorted (map idx ((0, 0) # cells w h))"
    by (simp add: idx_def cells_index)
  then have "sorted (map idx pre @ idx (snd r) # map idx post)" unfolding sp(1) by simp
  then have later: "\<forall>x\<in>set post. idx (snd r) \<le> idx x"
    by (auto simp: sorted_append)
  have cell: "f (i, j) \<le> fst r \<and> (f (i, j) = fst r \<longrightarrow> idx (snd r) \<le> idx (i, j))"
    if "i < w" "j < h" for i j
  proof -
    have "(i, j) \<in> set ((0, 0) # cells w h)" using that by (simp add: cells_set)
    then consider "(i, j) \<in> set pre" | "(i, j) = snd r" | "(i, j) \<in> set post"
      unfolding sp(1) by auto
    then show ?thesis
    proof cases
      case 1
      then show ?thesis using sp(3) by (auto simp: less_imp_le)
    next
      case 2
      then show ?thesis using sp(2) by simp
    next
      case 3
      then show ?thesis using sp(4) later by simp
    qed
  qed
  have "idx (snd r) = fst (snd r) + snd (snd r) * w"
    by (simp add: idx_def case_prod_beta)
  then show ?thesis
    using q cell sp(2) unfolding r_def[symmetric] by (simp add: idx_def)
qed

lemma find_max_diff_numbers:
  fixes env :: "('a::linorder) ieee env"
  assumes "0 < w" and "0 < h"
    and nan: "\<forall>i<w. \<forall>j<h. cell_diff env w xs c t i j \<noteq> NaN"
  shows "fst (snd (find_max_diff env w h xs c t)) < w \<and>
     snd (snd (find_max_diff env w h xs c t)) < h \<and>
     fst (find_max_diff env w h xs c t) =
       cell_diff env w xs c t (fst (snd (find_max_diff env w h xs c t)))
         (snd (snd (find_max_diff env w h xs c t))) \<and>
     (\<forall>i<w. \<forall>j<h.
        cell_diff env w xs c t i j \<le> fst (find_max_diff env w h xs c t) \<and>
        (cell_diff env w xs c t i j = fst (find_max_diff env w h xs c t) \<longrightarrow>
           fst (snd (find_max_diff env w h xs c t)) + snd (snd (find_max_diff env w h xs c t)) * w
             \<le> i + j * w))"
proof -
  define f where "f = (\<lambda>(i, j). cell_diff env w xs c t i j)"
  define g where "g = (\<lambda>p. case f p of Num x \<Rightarrow> x)"
  define r where "r = fold (max_step g) (cells w h) (g (0, 0), (0, 0))"
  have num: "f (i, j) = Num (g (i, j))" if "i < w" "j < h" for i j
    using nan that by (cases "f (i, j)") (simp_all add: f_def g_def)
  then have all: "\<forall>p\<in>set (cells w h). f p = Num (g p)"
    by (auto simp: cells_set)
  have z: "f (0, 0) = Num (g (0, 0))" using num assms(1,2) by simp
  have z': "cell_diff env w xs c t 0 0 = Num (g (0, 0))" using z by (simp add: f_def)
  have "find_max_diff env w h xs c t = fold (max_step f) (cells w h) (Num (g (0, 0)), (0, 0))"
    by (simp only: find_max_diff_scan f_def[symmetric] z')
  then have fm: "find_max_diff env w h xs c t = (Num (fst r), snd r)"
    using scan_numbers[OF all, of "g (0, 0)" "(0, 0)"] by (simp add: r_def)
  have s: "fst (snd r) < w" "snd (snd r) < h" "fst r = g (snd r)"
    "\<forall>i<w. \<forall>j<h. g (i, j) \<le> fst r \<and>
        (g (i, j) = fst r \<longrightarrow> fst (snd r) + snd (snd r) * w \<le> i + j * w)"
    using scan_cells[OF assms(1,2), of g] unfolding r_def[symmetric] by blast+
  have cd: "cell_diff env w xs c t i j = Num (g (i, j))" if "i < w" "j < h" for i j
    using num[OF that] by (simp add: f_def)
  have "Num (fst r) = cell_diff env w xs c t (fst (snd r)) (snd (snd r))"
    using cd[OF s(1,2)] s(3) by simp
  then show ?thesis
    using s(1,2,4) unfolding fm by (simp add: cd ieee_order_simps)
qed

section \<open>The claims\<close>

text \<open>
  C1, as stated, fails: every \<open>return\<close> of \<open>main\<close> leaves the program at once, the one
  at the join (line 234) too, and the cleanup of lines 247 to 294 is not run. In the run
  where the kernel fails on device 1 in the first tick, the context and both buffers of
  device 1 were created and its initialisation line printed; the program exits with the
  kernel's status 7, and the result of device 1 is not copied back, its buffers are not
  freed, its context is not destroyed, its deinitialisation line is not printed.
\<close>

theorem abort_leaves_devices_uncleaned:
  "fst (main globals0 env_kernel_fails) = 7 \<and>
   Call (CuCtxCreate 1) \<in> set (trace (snd (main globals0 env_kernel_fails))) \<and>
   Call (CudaMallocIn 1) \<in> set (trace (snd (main globals0 env_kernel_fails))) \<and>
   Call (CudaMallocOut 1) \<in> set (trace (snd (main globals0 env_kernel_fails))) \<and>
   Stdout ''Device %d initialized'' [I 1] \<in> set (trace (snd (main globals0 env_kernel_fails))) \<and>
   Call (CudaMemcpyD2H 1) \<notin> set (trace (snd (main globals0 env_kernel_fails))) \<and>
   Call (CudaFreeIn 1) \<notin> set (trace (snd (main globals0 env_kernel_fails))) \<and>
   Call (CudaFreeOut 1) \<notin> set (trace (snd (main globals0 env_kernel_fails))) \<and>
   Call (CuCtxDestroy 1) \<notin> set (trace (snd (main globals0 env_kernel_fails))) \<and>
   Stdout ''Device %d deinitialized'' [I 1] \<notin> set (trace (snd (main globals0 env_kernel_fails)))"
proof -
  note r = reaches_first_join(1)
  have n: "ndevices_found env_kernel_fails \<noteq> 0" by (simp add: two_devices)
  have ts: "tick_status env_kernel_fails (ndevices_found env_kernel_fails) 0 = 7"
    using kernel_fails_steps by (simp add: tick_status_def two_devices upt_rec)
  then have ts0: "tick_status env_kernel_fails (ndevices_found env_kernel_fails) 0 \<noteq> 0" by simp
  have ex: "fst (main globals0 env_kernel_fails) = 7"
    using exit_at_join[OF r ts0] ts by simp
  note a = abort_events[OF r ts0]
  have c: "cleanup_event (Call (CudaMemcpyD2H 1) :: int event)"
    "cleanup_event (Call (CudaFreeIn 1) :: int event)"
    "cleanup_event (Call (CudaFreeOut 1) :: int event)"
    "cleanup_event (Call (CuCtxDestroy 1) :: int event)"
    "cleanup_event (Stdout ''Device %d deinitialized'' [I 1] :: int event)"
    by simp_all
  have absent: "Call (CudaMemcpyD2H 1) \<notin> set (trace (snd (main globals0 env_kernel_fails)))"
    "Call (CudaFreeIn 1) \<notin> set (trace (snd (main globals0 env_kernel_fails)))"
    "Call (CudaFreeOut 1) \<notin> set (trace (snd (main globals0 env_kernel_fails)))"
    "Call (CuCtxDestroy 1) \<notin> set (trace (snd (main globals0 env_kernel_fails)))"
    "Stdout ''Device %d deinitialized'' [I 1] \<notin> set (trace (snd (main globals0 env_kernel_fails)))"
    using a c by blast+
  have ie: "init_events env_kernel_fails 1 =
      [Call (CuDeviceGet 1), Call (CuCtxCreate 1), Call (CudaMallocIn 1), Call (CudaMallocOut 1),
       Call (CudaMemcpyH2D 1), Call (CuCtxPopInit 1), Stdout ''Device %d initialized'' [I 1]]"
    by (simp add: init_events_def init_sites_def env_kernel_fails_def)
  have "(1::nat) < ndevices_found env_kernel_fails" by (simp add: two_devices)
  from init_events_in_trace[OF r this]
  have present: "Call (CuCtxCreate 1) \<in> set (trace (snd (main globals0 env_kernel_fails)))"
    "Call (CudaMallocIn 1) \<in> set (trace (snd (main globals0 env_kernel_fails)))"
    "Call (CudaMallocOut 1) \<in> set (trace (snd (main globals0 env_kernel_fails)))"
    "Stdout ''Device %d initialized'' [I 1] \<in> set (trace (snd (main globals0 env_kernel_fails)))"
    unfolding ie by simp_all
  show ?thesis using ex absent present by simp
qed

text \<open>
  C1, amended. In a run that arrives at the join of tick \<open>k\<close> with a non-zero status in
  the configuration of some device, the program exits with a non-zero status, the first
  non-zero one among the configurations in index order. It skips the remaining ticks, the
  validation and the cleanup: no event of a later tick, no validation line, and no event
  of the cleanup (push, copy back, release of either buffer, destruction of the context,
  deinitialisation line) of any device is in the trace of the run.
\<close>

theorem abort_at_join_skips_cleanup:
  fixes env :: "('v::ord) env"
  assumes "reaches_join g env k" and "d < ndevices_found env"
    and "status (configs (at_join g env k) ! d) \<noteq> 0"
  shows "fst (main g env) \<noteq> 0 \<and>
     fst (main g env) =
       first_nonzero (map (\<lambda>d. status (configs (at_join g env k) ! d)) [0..<ndevices_found env]) \<and>
     (\<forall>e\<in>set (trace (snd (main g env))).
        \<not> cleanup_event e \<and> \<not> validation_event e \<and> (\<forall>j. tick_of e = Some j \<longrightarrow> j \<le> k))"
proof -
  have "step_status env k d \<noteq> 0"
    using assms(3) at_join_configs(1)[OF assms(1,2)] by simp
  then have ts: "tick_status env (ndevices_found env) k \<noteq> 0"
    using assms(2) by (auto simp: tick_status_zero)
  show ?thesis
    using exit_at_join[OF assms(1) ts] ts abort_events[OF assms(1) ts]
    by (simp add: join_statuses[OF assms(1)] tick_status_def)
qed

theorem abort_at_join_skips_cleanup_witness:
  "reaches_join globals0 env_kernel_fails 0 \<and>
   status (configs (at_join globals0 env_kernel_fails 0) ! 1) = 7 \<and>
   fst (main globals0 env_kernel_fails) = 7 \<and>
   Call (CuCtxDestroy 1) \<notin> set (trace (snd (main globals0 env_kernel_fails)))"
proof -
  note r = reaches_first_join(1)
  have d: "1 < ndevices_found env_kernel_fails" by (simp add: two_devices)
  have s: "status (configs (at_join globals0 env_kernel_fails 0) ! 0) = 0"
    "status (configs (at_join globals0 env_kernel_fails 0) ! 1) = 7"
    using at_join_configs(1)[OF r, of 0] at_join_configs(1)[OF r, of 1] kernel_fails_steps
    by (simp_all add: two_devices)
  have n: "[0..<ndevices_found env_kernel_fails] = [0, 1]"
    by (simp add: two_devices upt_rec)
  have "cleanup_event (Call (CuCtxDestroy 1) :: int event)" by simp
  then show ?thesis
    using abort_at_join_skips_cleanup[OF r d] s r unfolding n by auto
qed

text \<open>
  C2, as stated, fails when it is the pop that fails: line 70 has incremented the step
  counter before line 73 pops the context. In the run where \<open>cuCtxPopCurrent\<close> returns 3
  for device 0 in the first tick, \<open>thread_func\<close> returns 3, the status stored is 3, and
  the step counter has gone from 0 to 1.
\<close>

theorem pop_failure_increments_step:
  "fst (thread_func env_pop_fails 0 0 (at_tick globals0 env_pop_fails 0)) = 3 \<and>
   step (configs (at_tick globals0 env_pop_fails 0) ! 0) = 0 \<and>
   step (configs (at_join globals0 env_pop_fails 0) ! 0) = 1 \<and>
   status (configs (at_join globals0 env_pop_fails 0) ! 0) = 3"
proof -
  note r = reaches_first_join(2)
  have d: "0 < ndevices_found env_pop_fails" by (simp add: two_devices)
  show ?thesis
    using at_join_configs(1,3)[OF r d] at_tick_step(1)[OF r d] pop_fails_steps
    by (simp add: thread_func_fst)
qed

text \<open>
  C2, amended. For every invocation of \<open>thread_func\<close> that fails, the status it returns is
  stored in the status field of the configuration (line 210); when the failure is in
  pushing the context or in running the kernel, the step counter is not incremented.
\<close>

theorem failed_step_bookkeeping:
  assumes "d < length (configs st)" and "fst (thread_func env i d st) \<noteq> 0"
  shows "status (configs (worker env i d st) ! d) = fst (thread_func env i d st) \<and>
     (status_of env (CuCtxPushStep i d) \<noteq> 0 \<or> status_of env (Pattern2dGpu i d) \<noteq> 0 \<longrightarrow>
        step (configs (worker env i d st) ! d) = step (configs st ! d))"
  using worker_own[OF assms(1), of env i] by (auto simp: thread_func_fst)

text \<open>The witness: the kernel fails on device 1 in the first tick of a run.\<close>

theorem failed_step_bookkeeping_witness:
  "1 < length (configs (at_tick globals0 env_kernel_fails 0)) \<and>
   fst (thread_func env_kernel_fails 0 1 (at_tick globals0 env_kernel_fails 0)) = 7 \<and>
   status_of env_kernel_fails (Pattern2dGpu 0 1) = 7 \<and>
   status (configs (worker env_kernel_fails 0 1 (at_tick globals0 env_kernel_fails 0)) ! 1) = 7 \<and>
   step (configs (at_tick globals0 env_kernel_fails 0) ! 1) = 0 \<and>
   step (configs (worker env_kernel_fails 0 1 (at_tick globals0 env_kernel_fails 0)) ! 1) = 0"
proof -
  note r = reaches_first_join(1)
  have d: "1 < ndevices_found env_kernel_fails" by (simp add: two_devices)
  have l: "1 < length (configs (at_tick globals0 env_kernel_fails 0))"
    using at_tick_step(2)[OF r d] d by simp
  have f: "fst (thread_func env_kernel_fails 0 1 (at_tick globals0 env_kernel_fails 0)) = 7"
    using kernel_fails_steps by (simp add: thread_func_fst)
  have k: "status_of env_kernel_fails (Pattern2dGpu 0 1) = 7"
    by (simp add: env_kernel_fails_def)
  have s: "step (configs (at_tick globals0 env_kernel_fails 0) ! 1) = 0"
    using at_tick_step(1)[OF r d] by simp
  show ?thesis
    using failed_step_bookkeeping[OF l, of env_kernel_fails 0] f l k s by simp
qed

text \<open>
  C3, as stated, fails: in a run with two devices where every call of \<open>pattern2d_cpu\<close>
  returns 5 and every other call succeeds, the stencil primitive has failed at tick 0 and
  the exit status is 0. Line 219 drops the value \<open>pattern2d_cpu\<close> returns.
\<close>

theorem cpu_failure_ignored:
  "status_of env_cpu_fails (Pattern2dCpu 0 49152 32768) = 5 \<and>
   Call (Pattern2dCpu 0 49152 32768) \<in> set (trace (snd (main globals0 env_cpu_fails))) \<and>
   fst (main globals0 env_cpu_fails) = 0"
proof -
  have "status_of env_cpu_fails c = 0" if "c \<in> set (program_order globals0 env_cpu_fails)" for c
  proof (cases c)
    case (Pattern2dCpu i a b)
    then show ?thesis using that program_order_no_cpu[of i a b globals0 env_cpu_fails] by simp
  qed (simp_all add: env_cpu_fails_def)
  then have ex: "fst (main globals0 env_cpu_fails) = 0"
    using main_master[of globals0 env_cpu_fails] by (simp add: first_status_zero)
  have n: "ndevices_found env_cpu_fails = 2" "g_nx globals0 * g_ny globals0 = 16384"
    "g_nticks globals0 = 10"
    by (simp_all add: env_cpu_fails_def quiet_def globals0_def)
  have "Call (Pattern2dCpu 0 49152 32768) \<in> set (tick_events env_cpu_fails 2 16384 0)"
    by (simp add: tick_events_def input_at_def control_at_def)
  moreover have "(0::nat) \<in> set [0..<10]" by simp
  ultimately have "Call (Pattern2dCpu 0 49152 32768) \<in>
      set (concat (map (tick_events env_cpu_fails 2 16384) [0..<10]))"
    unfolding set_concat by (intro UN_I[of "tick_events env_cpu_fails 2 16384 0"]) simp_all
  moreover have "ndevices_found env_cpu_fails \<noteq> 0" using n by simp
  ultimately have "Call (Pattern2dCpu 0 49152 32768) \<in> set (trace (snd (main globals0 env_cpu_fails)))"
    using trace_success[OF ex] n by simp
  then show ?thesis using ex by (simp add: env_cpu_fails_def)
qed

text \<open>
  C3, amended. The program tests the status of every call of the accelerator binding and
  of \<open>pattern2d_gpu\<close> and of no other call: line 219 drops what \<open>pattern2d_cpu\<close> returns,
  as lines 112 and 127 use what \<open>malloc\<close> returns untested. In every run the exit status
  is the status of the first failing call in program order among the tested calls: the
  device count; for each device in index order the six calls of its initialisation; for
  each tick, for each device in index order, push, \<open>pattern2d_gpu\<close>, pop; for each device
  in index order the five calls of its cleanup. The status is returned unchanged, and the
  exit status is 0 if none of them fails, which includes the run without devices. No call
  of \<open>pattern2d_cpu\<close> is among the tested calls, and two environments that differ only in
  what \<open>pattern2d_cpu\<close> returns give the same exit status.
\<close>

theorem exit_status_first_failure:
  fixes env :: "('v::ord) env"
  shows "fst (main g env) = first_status env (program_order g env) \<and>
     (\<forall>i a b. Pattern2dCpu i a b \<notin> set (program_order g env)) \<and>
     (\<forall>f. (\<forall>c. (\<forall>i a b. c \<noteq> Pattern2dCpu i a b) \<longrightarrow> f c = status_of env c) \<longrightarrow>
        fst (main g (env\<lparr>status_of := f\<rparr>)) = fst (main g env))"
proof -
  have ex: "fst (main g e) = first_status e (program_order g e)" for e :: "'v env"
    using main_master[of g e] by simp
  have no: "Pattern2dCpu i a b \<notin> set (program_order g env)" for i a b
    by (rule program_order_no_cpu)
  have "fst (main g (env\<lparr>status_of := f\<rparr>)) = fst (main g env)"
    if f: "\<forall>c. (\<forall>i a b. c \<noteq> Pattern2dCpu i a b) \<longrightarrow> f c = status_of env c" for f
  proof -
    have po: "program_order g (env\<lparr>status_of := f\<rparr>) = program_order g env"
      by (simp add: program_order_def)
    have "f c = status_of env c" if "c \<in> set (program_order g env)" for c
      using f no that by metis
    then have m: "map f (program_order g env) = map (status_of env) (program_order g env)"
      by simp
    have "first_status (env\<lparr>status_of := f\<rparr>) (program_order g env) =
        first_nonzero (map f (program_order g env))"
      by (simp add: first_status_def)
    also have "\<dots> = first_nonzero (map (status_of env) (program_order g env))"
      by (simp only: m)
    also have "\<dots> = first_status env (program_order g env)"
      by (simp add: first_status_def)
    finally show ?thesis unfolding ex po .
  qed
  then show ?thesis using ex[of env] no by blast
qed

text \<open>The witness: every call of \<open>pattern2d_cpu\<close> returns 5, the first of them in the
  first tick, and the kernel of device 0 returns 7 in the second tick. The exit status
  is 7, as it is when \<open>pattern2d_cpu\<close> returns 0.\<close>

theorem exit_status_first_failure_witness:
  "status_of env_cpu_then_kernel (Pattern2dCpu 0 49152 32768) = 5 \<and>
   first_status env_cpu_then_kernel (program_order globals0 env_cpu_then_kernel) = 7 \<and>
   fst (main globals0 env_cpu_then_kernel) = 7 \<and>
   fst (main globals0
     (env_cpu_then_kernel\<lparr>status_of := (\<lambda>c. if c = Pattern2dGpu 1 0 then 7 else 0)\<rparr>)) = 7"
proof -
  have s: "status_of env_cpu_then_kernel (Pattern2dCpu 0 49152 32768) = 5"
    by (simp add: env_cpu_then_kernel_def)
  have f: "\<forall>c. (\<forall>i a b. c \<noteq> Pattern2dCpu i a b) \<longrightarrow>
      (if c = Pattern2dGpu 1 0 then 7 else 0) = status_of env_cpu_then_kernel c"
  proof (intro allI impI)
    fix c :: site
    assume "\<forall>i a b. c \<noteq> Pattern2dCpu i a b"
    then show "(if c = Pattern2dGpu 1 0 then 7 else 0) = status_of env_cpu_then_kernel c"
      by (cases c) (auto simp: env_cpu_then_kernel_def)
  qed
  have v: "first_status env_cpu_then_kernel (program_order globals0 env_cpu_then_kernel) = 7"
    by (simp add: program_order_def globals0_def env_cpu_then_kernel_def quiet_def
        first_status_def init_sites_def tick_sites_def step_sites_def final_sites_def upt_rec)
  show ?thesis
    using exit_status_first_failure[of globals0 env_cpu_then_kernel] s f v by simp
qed

text \<open>
  C4. In a successful run of \<open>nticks > 0\<close> ticks on at least one device, the final values
  of \<open>control\<close> and \<open>input\<close> are those they had when the loop ended, exchanged: the one
  swap of lines 240 to 244. The tile at \<open>control\<close> is then the output tile of the last
  call of \<open>pattern2d_cpu\<close> in the run, and the lines of the validation are those computed
  against the tile at this \<open>control\<close>.
\<close>

theorem final_swap_selects_last_written:
  fixes env :: "('v::ord) env"
  assumes "fst (main g env) = 0" and "ndevices_found env \<noteq> 0" and "0 < g_nticks g"
  shows "control (snd (main g env)) = input (at_tick g env (g_nticks g)) \<and>
     input (snd (main g env)) = control (at_tick g env (g_nticks g)) \<and>
     cpu_writes (trace (snd (main g env))) \<noteq> [] \<and>
     last (cpu_writes (trace (snd (main g env)))) = control (snd (main g env)) \<and>
     filter validation_event (trace (snd (main g env))) =
       map (result_line env g (inout (snd (main g env))) (control (snd (main g env))))
         [0..<ndevices_found env]"
proof -
  let ?n = "ndevices_found env" and ?np = "g_nx g * g_ny g" and ?T = "g_nticks g"
  have m: "control (snd (main g env)) = input_at ?n ?np ?T"
    "input (snd (main g env)) = control_at ?n ?np ?T"
    using main_master[of g env] assms(1,2) by simp_all
  have a: "control (at_tick g env ?T) = control_at ?n ?np ?T"
    "input (at_tick g env ?T) = input_at ?n ?np ?T"
    using after_loop_inv[OF assms(1)] by (simp_all add: tick_inv_def)
  obtain t where t: "?T = Suc t" using assms(3) by (cases ?T) simp_all
  have w: "cpu_writes (trace (snd (main g env))) = map (control_at ?n ?np) [0..<?T]"
    by (rule cpu_writes_success[OF assms(1,2)])
  have l: "last (map (control_at ?n ?np) [0..<?T]) = input_at ?n ?np ?T"
    unfolding t by (simp add: control_input_Suc)
  show ?thesis
    using m a w l assms(3) validation_lines_success[OF assms(1,2)] by simp
qed

theorem final_swap_selects_last_written_witness:
  "fst (main globals0 quiet) = 0 \<and> ndevices_found quiet \<noteq> 0 \<and> 0 < g_nticks globals0 \<and>
   cpu_writes (trace (snd (main globals0 quiet))) \<noteq> [] \<and>
   last (cpu_writes (trace (snd (main globals0 quiet)))) = control (snd (main globals0 quiet)) \<and>
   control (snd (main globals0 quiet)) = input (at_tick globals0 quiet (g_nticks globals0))"
proof -
  have n: "ndevices_found quiet \<noteq> 0" by (simp add: quiet_def)
  have t: "0 < g_nticks globals0" by (simp add: globals0_def)
  show ?thesis
    using final_swap_selects_last_written[OF quiet_succeeds n t] quiet_succeeds n t by simp
qed

text \<open>
  C5, as stated, fails when a difference is NaN. On the grid of 2 by 2 cells with the
  differences NaN, 5, 2, 1 in row-major order the validation reports NaN at (0,0): no
  later difference is greater than NaN, and NaN is not above the difference 5 of cell
  (1,0). With the differences 1, NaN, 9, 0 it reports 9 at (0,1), and 9 is not above the
  difference NaN of cell (1,0). The kernels are external and the output buffer of a
  device is never initialised, so a tile can hold NaN.
\<close>

theorem nan_difference_not_maximum:
  "trace (validate_body quiet_ieee globals_small 4 0
     (validation_state [NaN, Num 5, Num 2, Num 1, Num 0, Num 0, Num 0, Num 0])) =
     [Stdout ''Device %d result abs max diff = %f @ (%d,%d)'' [I 0, F NaN, I 0, I 0]] \<and>
   cell_diff quiet_ieee 2 [NaN, Num 5, Num 2, Num 1, Num 0, Num 0, Num 0, Num 0] 4 0 1 0 =
     Num 5 \<and>
   \<not> Num 5 \<le> (NaN :: int ieee) \<and>
   trace (validate_body quiet_ieee globals_small 4 0
     (validation_state [Num 1, NaN, Num 9, Num 0, Num 0, Num 0, Num 0, Num 0])) =
     [Stdout ''Device %d result abs max diff = %f @ (%d,%d)'' [I 0, F (Num 9), I 0, I 1]] \<and>
   cell_diff quiet_ieee 2 [Num 1, NaN, Num 9, Num 0, Num 0, Num 0, Num 0, Num 0] 4 0 1 0 =
     NaN \<and>
   \<not> NaN \<le> (Num 9 :: int ieee)"
  by (simp add: validate_body_def find_max_diff_def globals_small_def quiet_ieee_def
      validation_state_def start_def io_defs upt_rec cell_diff_def ieee_order_simps)

text \<open>
  C5, amended. With \<open>nx > 0\<close> and \<open>ny > 0\<close>, when no cell of the grid has the difference
  NaN between the tile of device \<open>d\<close> and the control tile, the validation of device \<open>d\<close>
  (lines 303-317) prints one line, with a value \<open>m\<close> and a cell \<open>(mi, mj)\<close> of the grid such
  that \<open>m\<close> is the difference at that cell, no cell of the grid has a larger difference,
  and every cell with the difference \<open>m\<close> has a row-major index \<open>i + j * nx\<close> that is not
  below that of \<open>(mi, mj)\<close>.
\<close>

theorem validator_reports_first_maximum:
  fixes env :: "('a::linorder) ieee env"
  assumes "0 < g_nx g" and "0 < g_ny g"
    and "\<forall>i<g_nx g. \<forall>j<g_ny g.
       cell_diff env (g_nx g) (inout st) (control st) (d * (g_nx g * g_ny g)) i j \<noteq> NaN"
  shows "\<exists>m mi mj.
     trace (validate_body env g (g_nx g * g_ny g) d st) =
       trace st @
       [Stdout ''Device %d result abs max diff = %f @ (%d,%d)''
          [I (int d), F m, I (int mi), I (int mj)]] \<and>
     mi < g_nx g \<and> mj < g_ny g \<and>
     m = cell_diff env (g_nx g) (inout st) (control st) (d * (g_nx g * g_ny g)) mi mj \<and>
     (\<forall>i<g_nx g. \<forall>j<g_ny g.
        cell_diff env (g_nx g) (inout st) (control st) (d * (g_nx g * g_ny g)) i j \<le> m \<and>
        (cell_diff env (g_nx g) (inout st) (control st) (d * (g_nx g * g_ny g)) i j = m \<longrightarrow>
           mi + mj * g_nx g \<le> i + j * g_nx g))"
proof -
  define r where
    "r = find_max_diff env (g_nx g) (g_ny g) (inout st) (control st) (d * (g_nx g * g_ny g))"
  have "trace (validate_body env g (g_nx g * g_ny g) d st) =
       trace st @
       [Stdout ''Device %d result abs max diff = %f @ (%d,%d)''
         [I (int d), F (fst r), I (int (fst (snd r))), I (int (snd (snd r)))]]"
    by (simp add: validate_body_props result_line_def r_def case_prod_beta)
  then show ?thesis
    using find_max_diff_numbers[OF assms, folded r_def]
    by blast
qed

text \<open>The witness: on the grid of 2 by 2 cells the differences are 3, 7, 7, 1 in row-major
  order, none of them NaN; the line reports 7 at (1,0), the first of the two cells with 7.\<close>

theorem validator_reports_first_maximum_witness:
  "0 < g_nx globals_small \<and> 0 < g_ny globals_small \<and>
   trace (validate_body quiet_ieee globals_small 4 0
     (validation_state [Num 3, Num 7, Num 7, Num 1, Num 0, Num 0, Num 0, Num 0])) =
     [Stdout ''Device %d result abs max diff = %f @ (%d,%d)'' [I 0, F (Num 7), I 1, I 0]] \<and>
   cell_diff quiet_ieee 2 [Num 3, Num 7, Num 7, Num 1, Num 0, Num 0, Num 0, Num 0] 4 0 0 0 =
     Num 3 \<and>
   cell_diff quiet_ieee 2 [Num 3, Num 7, Num 7, Num 1, Num 0, Num 0, Num 0, Num 0] 4 0 1 0 =
     Num 7 \<and>
   cell_diff quiet_ieee 2 [Num 3, Num 7, Num 7, Num 1, Num 0, Num 0, Num 0, Num 0] 4 0 0 1 =
     Num 7 \<and>
   cell_diff quiet_ieee 2 [Num 3, Num 7, Num 7, Num 1, Num 0, Num 0, Num 0, Num 0] 4 0 1 1 =
     Num 1"
proof -
  define xs :: "int ieee list" where
    "xs = [Num 3, Num 7, Num 7, Num 1, Num 0, Num 0, Num 0, Num 0]"
  have a: "0 < g_nx globals_small" "0 < g_ny globals_small" by (simp_all add: globals_small_def)
  have n: "\<forall>i<g_nx globals_small. \<forall>j<g_ny globals_small.
      cell_diff quiet_ieee (g_nx globals_small) (inout (validation_state xs))
        (control (validation_state xs)) (0 * (g_nx globals_small * g_ny globals_small)) i j
      \<noteq> NaN"
  proof (intro allI impI)
    fix i j :: nat
    assume "i < g_nx globals_small" "j < g_ny globals_small"
    then have "(i = 0 \<or> i = 1) \<and> (j = 0 \<or> j = 1)"
      by (auto simp: globals_small_def)
    then show "cell_diff quiet_ieee (g_nx globals_small) (inout (validation_state xs))
        (control (validation_state xs)) (0 * (g_nx globals_small * g_ny globals_small)) i j
      \<noteq> NaN"
      by (auto simp: cell_diff_def quiet_ieee_def globals_small_def validation_state_def xs_def)
  qed
  have e: "trace (validate_body quiet_ieee globals_small 4 0 (validation_state xs)) =
     [Stdout ''Device %d result abs max diff = %f @ (%d,%d)'' [I 0, F (Num 7), I 1, I 0]]"
    by (simp add: validate_body_def find_max_diff_def globals_small_def quiet_ieee_def
        validation_state_def start_def io_defs upt_rec xs_def ieee_order_simps)
  have c: "cell_diff quiet_ieee 2 xs 4 0 0 0 = Num 3" "cell_diff quiet_ieee 2 xs 4 0 1 0 = Num 7"
    "cell_diff quiet_ieee 2 xs 4 0 0 1 = Num 7" "cell_diff quiet_ieee 2 xs 4 0 1 1 = Num 1"
    by (simp_all add: cell_diff_def quiet_ieee_def xs_def)
  show ?thesis
    using validator_reports_first_maximum[OF a n] a e c
    unfolding xs_def by simp
qed



text \<open>
  C7. When \<open>cudaGetDeviceCount\<close> succeeds and reports no device, the program exits with
  status 0. Its only external call is the count, its only output the line with the count,
  and it has allocated neither the host array nor a configuration, and has not touched
  device memory: no initialisation, no step, no validation.
\<close>

theorem zero_devices_exit:
  fixes env :: "('v::ord) env"
  assumes "status_of env CudaGetDeviceCount = 0" and "ndevices_found env = 0"
  shows "fst (main g env) = 0 \<and>
     trace (snd (main g env)) =
       [Call CudaGetDeviceCount, Stdout ''%d CUDA device(s) found'' [I 0]] \<and>
     inout (snd (main g env)) = [] \<and> configs (snd (main g env)) = [] \<and>
     devmem (snd (main g env)) = dev_garbage env"
  using assms by (simp add: main_no_devices start_def)

theorem zero_devices_exit_witness:
  "status_of env_no_devices CudaGetDeviceCount = 0 \<and> ndevices_found env_no_devices = 0 \<and>
   fst (main globals0 env_no_devices) = 0 \<and>
   trace (snd (main globals0 env_no_devices)) =
     [Call CudaGetDeviceCount, Stdout ''%d CUDA device(s) found'' [I 0]]"
  using zero_devices_exit[of env_no_devices globals0]
  by (simp add: env_no_devices_def quiet_def)

text \<open>
  C8. In a run that arrives at the join of tick \<open>k\<close> (ticks counted from 0), the line
  "Device d completed step k+1" is on stdout once if the step of device \<open>d\<close> in that
  tick succeeded (its status at the join is 0) and not at all if it failed; no other
  tick and no other part of the run prints it. When the step succeeded, \<open>k + 1\<close> is the
  value of the step counter after the increment: the counter was \<open>k\<close> when the tick
  began.
\<close>

theorem completed_line_iff_step_succeeds:
  fixes env :: "('v::ord) env"
  assumes "reaches_join g env k" and "d < ndevices_found env"
  shows "count_list (trace (snd (main g env)))
       (Stdout ''Device %d completed step %d'' [I (int d), I (int k + 1)]) =
     (if status (configs (at_join g env k) ! d) = 0 then 1 else 0) \<and>
     (status (configs (at_join g env k) ! d) = 0 \<longrightarrow>
        step (configs (at_tick g env k) ! d) = int k \<and>
        step (configs (at_join g env k) ! d) = int k + 1)"
  using completed_count[OF assms] at_join_configs[OF assms] at_tick_step(1)[OF assms]
  by (simp add: step_status_zero)

text \<open>The witness: the kernel fails on device 1 in the first tick. Device 0 prints its
  line for step 1 once, device 1 never.\<close>

theorem completed_line_iff_step_succeeds_witness:
  "reaches_join globals0 env_kernel_fails 0 \<and>
   status (configs (at_join globals0 env_kernel_fails 0) ! 0) = 0 \<and>
   count_list (trace (snd (main globals0 env_kernel_fails)))
     (Stdout ''Device %d completed step %d'' [I 0, I 1]) = 1 \<and>
   status (configs (at_join globals0 env_kernel_fails 0) ! 1) = 7 \<and>
   count_list (trace (snd (main globals0 env_kernel_fails)))
     (Stdout ''Device %d completed step %d'' [I 1, I 1]) = 0"
proof -
  note r = reaches_first_join(1)
  have s: "status (configs (at_join globals0 env_kernel_fails 0) ! 0) = 0"
    "status (configs (at_join globals0 env_kernel_fails 0) ! 1) = 7"
    using at_join_configs(1)[OF r, of 0] at_join_configs(1)[OF r, of 1] kernel_fails_steps
    by (simp_all add: two_devices)
  show ?thesis
    using completed_line_iff_step_succeeds[OF r, of 0]
      completed_line_iff_step_succeeds[OF r, of 1] s r
    by (simp add: two_devices)
qed

text \<open>
  C9, as stated, fails: a failure inside \<open>thread_func\<close> is reported twice, once by
  \<open>thread_func\<close> and once by the join. In the run where the kernel fails on device 1 in
  the first tick, a single call fails and stderr has two lines.
\<close>

theorem kernel_failure_prints_two_lines:
  "failed_calls env_kernel_fails (trace (snd (main globals0 env_kernel_fails))) =
     [Pattern2dGpu 0 1] \<and>
   filter is_stderr (trace (snd (main globals0 env_kernel_fails))) =
     [Stderr ''Cannot execute pattern 2d on device %d, status = %d'' [I 1, I 7],
      Stderr ''Cannot execute thread function for device %d, status = %d'' [I 1, I 7]]"
  unfolding kernel_fails_trace
  by (simp add: failed_calls_simps failed_call_simps tested_def env_kernel_fails_def)

text \<open>
  C9, amended. Every failed call has exactly one line of its own on stderr: among the
  lines of stderr other than the line of the join, each line occurs as many times as it
  is the line of a failed call of the run, and there are as many of them as failed calls
  (the threads of a tick print in no fixed order, so nothing is said of the order). The
  line of a failed call other than the destruction of a context carries the format that
  names the operation, the index of the device the call was made for (none for the device
  count) and the status the call returned. The only other line is the line of the join,
  printed once in a run in which a step failed; it carries the lowest index among the
  devices whose step failed and the exit status. So a failure in \<open>thread_func\<close> is
  reported by two lines.
\<close>

theorem stderr_lines_of_failures:
  fixes env :: "('v::ord) env"
  shows "(\<forall>l. count_list (filter own_line (trace (snd (main g env)))) l =
          count_list (map (err_line env) (failed_calls env (trace (snd (main g env))))) l) \<and>
     length (filter own_line (trace (snd (main g env)))) =
       length (failed_calls env (trace (snd (main g env)))) \<and>
     (\<forall>c\<in>set (failed_calls env (trace (snd (main g env)))).
        (\<forall>d. c \<noteq> CuCtxDestroy d) \<longrightarrow>
        (\<exists>fmt. err_line env c =
           Stderr fmt (map (I \<circ> int) (site_device c) @ [I (status_of env c)]))) \<and>
     filter join_line (trace (snd (main g env))) =
       (if failed_step_devices env (trace (snd (main g env))) = [] then []
        else [Stderr ''Cannot execute thread function for device %d, status = %d''
                [I (int (Min (set (failed_step_devices env (trace (snd (main g env))))))),
                 I (fst (main g env))]])"
proof -
  have own: "filter own_line (trace (snd (main g env))) =
      map (err_line env) (failed_calls env (trace (snd (main g env))))"
    by (rule balanced_run)
  have "\<exists>fmt. err_line env c =
      Stderr fmt (map (I \<circ> int) (site_device c) @ [I (status_of env c)])"
    if "c \<in> set (failed_calls env (trace (snd (main g env))))" "\<forall>d. c \<noteq> CuCtxDestroy d" for c
  proof -
    have "tested c" using failed_calls_mem[OF that(1)] by simp
    then show ?thesis using that(2) by (rule err_line_carries)
  qed
  moreover have "length (filter own_line (trace (snd (main g env)))) =
      length (failed_calls env (trace (snd (main g env))))"
    unfolding own by simp
  moreover have "count_list (filter own_line (trace (snd (main g env)))) l =
      count_list (map (err_line env) (failed_calls env (trace (snd (main g env))))) l" for l
    unfolding own by simp
  ultimately show ?thesis
    using join_lines_run[of g env] by blast
qed

text \<open>The witness: the kernel fails on device 1 in the first tick.\<close>

theorem stderr_lines_of_failures_witness:
  "failed_calls env_kernel_fails (trace (snd (main globals0 env_kernel_fails))) =
     [Pattern2dGpu 0 1] \<and>
   (\<forall>d. Pattern2dGpu 0 1 \<noteq> CuCtxDestroy d) \<and>
   filter own_line (trace (snd (main globals0 env_kernel_fails))) =
     [Stderr ''Cannot execute pattern 2d on device %d, status = %d'' [I 1, I 7]] \<and>
   err_line env_kernel_fails (Pattern2dGpu 0 1) =
     Stderr ''Cannot execute pattern 2d on device %d, status = %d'' [I 1, I 7] \<and>
   filter join_line (trace (snd (main globals0 env_kernel_fails))) =
     [Stderr ''Cannot execute thread function for device %d, status = %d'' [I 1, I 7]]"
proof -
  have f: "failed_calls env_kernel_fails (trace (snd (main globals0 env_kernel_fails))) =
      [Pattern2dGpu 0 1]"
    unfolding kernel_fails_trace
    by (simp add: failed_calls_simps failed_call_simps tested_def env_kernel_fails_def)
  have d: "failed_step_devices env_kernel_fails (trace (snd (main globals0 env_kernel_fails))) = [1]"
    by (simp add: failed_step_devices_def f step_site_def)
  have e: "fst (main globals0 env_kernel_fails) = 7"
    using exit_at_join[OF reaches_first_join(1)] kernel_fails_steps
    by (simp add: tick_status_def two_devices upt_rec)
  have s: "status_of env_kernel_fails (Pattern2dGpu 0 (Suc 0)) = 7"
    by (simp add: env_kernel_fails_def)
  have o: "filter own_line (trace (snd (main globals0 env_kernel_fails))) =
      [Stderr ''Cannot execute pattern 2d on device %d, status = %d'' [I 1, I 7]]"
    unfolding kernel_fails_trace by simp
  show ?thesis
    using stderr_lines_of_failures[of globals0 env_kernel_fails]
    by (simp add: f d e s o)
qed

text \<open>
  C10. In a run that arrives at the join of tick \<open>k\<close>, if the configurations of more than
  one device hold a non-zero status there, the exit status is the status of the one with
  the lowest index, \<open>d0\<close>. The order in which the threads of the tick ran is any order
  the environment gives.
\<close>

theorem lowest_failing_device_wins:
  fixes env :: "('v::ord) env"
  assumes "reaches_join g env k"
    and "d0 < ndevices_found env" and "status (configs (at_join g env k) ! d0) \<noteq> 0"
    and "\<forall>d<d0. status (configs (at_join g env k) ! d) = 0"
    and "d1 < ndevices_found env" and "d1 \<noteq> d0"
    and "status (configs (at_join g env k) ! d1) \<noteq> 0"
  shows "fst (main g env) = status (configs (at_join g env k) ! d0)"
proof -
  have s: "step_status env k d0 \<noteq> 0" "\<forall>d<d0. step_status env k d = 0"
    using assms(2,3,4) at_join_configs(1)[OF assms(1)] by auto
  have "tick_status env (ndevices_found env) k = step_status env k d0"
    using first_nonzero_upt[OF assms(2), of "step_status env k"] s
    by (simp add: tick_status_def)
  then show ?thesis
    using exit_at_join[OF assms(1)] s at_join_configs(1)[OF assms(1,2)] by simp
qed

text \<open>The witness: device 1 fails first in time with status 9, device 0 later with
  status 7, and the exit status is 7.\<close>

theorem lowest_failing_device_wins_witness:
  "reaches_join globals0 env_both_fail 0 \<and>
   status (configs (at_join globals0 env_both_fail 0) ! 0) = 7 \<and>
   status (configs (at_join globals0 env_both_fail 0) ! 1) = 9 \<and>
   finish_time env_both_fail 0 1 < finish_time env_both_fail 0 0 \<and>
   fst (main globals0 env_both_fail) = 7"
proof -
  have r: "reaches_join globals0 env_both_fail 0"
    by (simp add: reaches_join_def tested_before_tick_def globals0_def env_both_fail_def
        quiet_def init_sites_def upt_rec)
  have n: "(0::nat) < ndevices_found env_both_fail" "(1::nat) < ndevices_found env_both_fail"
    by (simp_all add: env_both_fail_def quiet_def)
  have s0: "status (configs (at_join globals0 env_both_fail 0) ! 0) = 7"
    using at_join_configs(1)[OF r n(1)]
    by (simp add: step_status_def step_sites_def first_status_def env_both_fail_def)
  have s1: "status (configs (at_join globals0 env_both_fail 0) ! 1) = 9"
    using at_join_configs(1)[OF r n(2)]
    by (simp add: step_status_def step_sites_def first_status_def env_both_fail_def)
  have "fst (main globals0 env_both_fail) = status (configs (at_join globals0 env_both_fail 0) ! 0)"
    using lowest_failing_device_wins[OF r n(1) _ _ n(2), unfolded s0 s1] s0 by simp
  then show ?thesis using r s0 s1 by (simp add: env_both_fail_def)
qed

end
